theory Spec2Isabelle
  imports Main
begin

section \<open>Strings\<close>

text \<open>
  A Go string is a sequence of bytes; it is modelled as a \<^typ>\<open>string\<close> whose
  characters are the bytes. The functions of package \<^verbatim>\<open>strings\<close> that the resolvers
  call are written out here on bytes.
\<close>

abbreviation NL :: char where "NL \<equiv> CHR 0x0A"
abbreviation BSL :: char where "BSL \<equiv> CHR 0x5C"

definition HasPrefix :: "string \<Rightarrow> string \<Rightarrow> bool" where
  "HasPrefix s p = (take (length p) s = p)"

definition HasSuffix :: "string \<Rightarrow> string \<Rightarrow> bool" where
  "HasSuffix s p = (length p \<le> length s \<and> drop (length s - length p) s = p)"

text \<open>
  \<^verbatim>\<open>strings.TrimSpace\<close> removes the leading and trailing white space runes
  (\<^verbatim>\<open>unicode.IsSpace\<close>). \<open>spaceLen s\<close> is the number of bytes of the white space
  rune that \<open>s\<close> starts with in UTF-8, and 0 when it starts with none; \<open>spaceLenR\<close>
  is the same for the rune that the reversed string ends with.
\<close>

definition asciiSpace :: "char \<Rightarrow> bool" where
  "asciiSpace c = (c = CHR 0x09 \<or> c = NL \<or> c = CHR 0x0B \<or> c = CHR 0x0C \<or> c = CHR 0x0D \<or> c = CHR 0x20)"

fun spaceLen :: "string \<Rightarrow> nat" where
  "spaceLen [] = 0"
| "spaceLen [a] = (if asciiSpace a then 1 else 0)"
| "spaceLen [a, b] =
     (if asciiSpace a then 1
      else if a = CHR 0xC2 \<and> (b = CHR 0x85 \<or> b = CHR 0xA0) then 2 else 0)"
| "spaceLen (a # b # c # r) =
     (if asciiSpace a then 1
      else if a = CHR 0xC2 \<and> (b = CHR 0x85 \<or> b = CHR 0xA0) then 2
      else if a = CHR 0xE1 \<and> b = CHR 0x9A \<and> c = CHR 0x80 then 3
      else if a = CHR 0xE2 \<and> b = CHR 0x80 \<and>
              ((of_char c :: nat) \<in> {0x80..0x8A} \<or> c = CHR 0xA8 \<or> c = CHR 0xA9 \<or> c = CHR 0xAF)
        then 3
      else if a = CHR 0xE2 \<and> b = CHR 0x81 \<and> c = CHR 0x9F then 3
      else if a = CHR 0xE3 \<and> b = CHR 0x80 \<and> c = CHR 0x80 then 3
      else 0)"

fun spaceLenR :: "string \<Rightarrow> nat" where
  "spaceLenR [] = 0"
| "spaceLenR [a] = (if asciiSpace a then 1 else 0)"
| "spaceLenR [a, b] =
     (if asciiSpace a then 1
      else if b = CHR 0xC2 \<and> (a = CHR 0x85 \<or> a = CHR 0xA0) then 2 else 0)"
| "spaceLenR (a # b # c # r) =
     (if asciiSpace a then 1
      else if b = CHR 0xC2 \<and> (a = CHR 0x85 \<or> a = CHR 0xA0) then 2
      else if c = CHR 0xE1 \<and> b = CHR 0x9A \<and> a = CHR 0x80 then 3
      else if c = CHR 0xE2 \<and> b = CHR 0x80 \<and>
              ((of_char a :: nat) \<in> {0x80..0x8A} \<or> a = CHR 0xA8 \<or> a = CHR 0xA9 \<or> a = CHR 0xAF)
        then 3
      else if c = CHR 0xE2 \<and> b = CHR 0x81 \<and> a = CHR 0x9F then 3
      else if c = CHR 0xE3 \<and> b = CHR 0x80 \<and> a = CHR 0x80 then 3
      else 0)"

function TrimLeft :: "string \<Rightarrow> string" where
  "TrimLeft s = (if spaceLen s = 0 then s else TrimLeft (drop (spaceLen s) s))"
  by pat_completeness auto
termination
proof (relation "measure length", goal_cases)
  case 1
  show ?case by simp
next
  case (2 s)
  then show ?case by (cases s) auto
qed

function TrimRightR :: "string \<Rightarrow> string" where
  "TrimRightR s = (if spaceLenR s = 0 then s else TrimRightR (drop (spaceLenR s) s))"
  by pat_completeness auto
termination
proof (relation "measure length", goal_cases)
  case 1
  show ?case by simp
next
  case (2 s)
  then show ?case by (cases s) auto
qed

definition TrimSpace :: "string \<Rightarrow> string" where
  "TrimSpace s = rev (TrimRightR (rev (TrimLeft s)))"

text \<open>\<^verbatim>\<open>strings.Split(s, "\n")\<close>: the pieces between the line feeds, at least one.\<close>

fun splitLoop :: "string \<Rightarrow> string \<Rightarrow> string list" where
  "splitLoop cur [] = [cur]"
| "splitLoop cur (c # cs) = (if c = NL then cur # splitLoop [] cs else splitLoop (cur @ [c]) cs)"

definition Split_NL :: "string \<Rightarrow> string list" where
  "Split_NL s = splitLoop [] s"

text \<open>
  \<^verbatim>\<open>strings.FieldsFunc(s, f)\<close> walks over \<open>s\<close> with the start of the current field
  (\<open>None\<close> outside a field) and emits a field whenever a delimiter ends one: the fields
  are the maximal runs of non-delimiters, none of them empty.
\<close>

fun fieldsLoop :: "(char \<Rightarrow> bool) \<Rightarrow> string option \<Rightarrow> string \<Rightarrow> string list" where
  "fieldsLoop f cur [] = (case cur of None \<Rightarrow> [] | Some w \<Rightarrow> [w])"
| "fieldsLoop f cur (c # cs) =
     (if f c then (case cur of None \<Rightarrow> fieldsLoop f None cs | Some w \<Rightarrow> w # fieldsLoop f None cs)
      else (case cur of None \<Rightarrow> fieldsLoop f (Some [c]) cs
                      | Some w \<Rightarrow> fieldsLoop f (Some (w @ [c])) cs))"

definition FieldsFunc :: "string \<Rightarrow> (char \<Rightarrow> bool) \<Rightarrow> string list" where
  "FieldsFunc s f = fieldsLoop f None s"

text \<open>The decimal digits of a number, as the verb \<^verbatim>\<open>%d\<close> prints them.\<close>

function decimal :: "nat \<Rightarrow> string" where
  "decimal n = (if n < 10 then [char_of (48 + n)] else decimal (n div 10) @ [char_of (48 + n mod 10)])"
  by pat_completeness auto
termination
  by (relation "measure id") auto

definition Itoa :: "int \<Rightarrow> string" where
  "Itoa i = (if i < 0 then ''-'' @ decimal (nat (- i)) else decimal (nat i))"

section \<open>The world outside the program\<close>

text \<open>
  The program reads files, sends HTTP requests, sleeps and prints. A \<open>world\<close> holds the
  file system and the trace of what the program did so far, in order; every function with
  an effect takes the world and returns it updated. The remote servers are a function
  \<open>network\<close>: the answer to a GET of a URL, given how many requests the program has sent
  before (so that a server may answer 429 first and 200 later). An answer is a transport
  error (the \<^verbatim>\<open>err\<close> of \<^verbatim>\<open>http.Get\<close>) or a response with its status line, status code
  and body.
\<close>

type_synonym error = string

datatype http_result = Failed error | Response string nat string

type_synonym network = "string \<Rightarrow> nat \<Rightarrow> http_result"

datatype LogLevel = DEBUG | INFO | WARN | ERROR | FATAL

datatype event = Get string | Sleep nat | Print string | Log LogLevel string

type_synonym filesystem = "string \<rightharpoonup> string"

record world =
  files :: filesystem
  trace :: "event list"

text \<open>The URLs requested and the seconds slept, in order.\<close>

fun urls :: "event list \<Rightarrow> string list" where
  "urls [] = []"
| "urls (Get u # es) = u # urls es"
| "urls (e # es) = urls es"

fun naps :: "event list \<Rightarrow> nat list" where
  "naps [] = []"
| "naps (Sleep n # es) = n # naps es"
| "naps (e # es) = naps es"

definition sent :: "world \<Rightarrow> nat" where
  "sent w = length (urls (trace w))"

definition emit :: "event \<Rightarrow> world \<Rightarrow> world" where
  "emit e w = w\<lparr>trace := trace w @ [e]\<rparr>"

definition emit_if :: "bool \<Rightarrow> event \<Rightarrow> world \<Rightarrow> world" where
  "emit_if b e w = (if b then emit e w else w)"

definition http_Get :: "network \<Rightarrow> string \<Rightarrow> world \<Rightarrow> http_result \<times> world" where
  "http_Get net url w = (net url (sent w), emit (Get url) w)"

definition ReadFile :: "string \<Rightarrow> world \<Rightarrow> error + string" where
  "ReadFile filename w =
     (case files w filename of None \<Rightarrow> Inl (''open '' @ filename @ '': no such file or directory'')
      | Some rawfile \<Rightarrow> Inr rawfile)"

text \<open>The lines the resolvers print, as \<^verbatim>\<open>fmt.Print\<close> and \<^verbatim>\<open>fmt.Printf\<close> render them.\<close>

definition checkingLine :: "string \<Rightarrow> string \<Rightarrow> event" where
  "checkingLine url sep = Print (''Checking: '' @ url @ sep)"

definition requestError :: "string \<Rightarrow> error \<Rightarrow> event" where
  "requestError url err = Print ('' [W] Error when trying to request '' @ url @ '' : '' @ err @ [NL])"

definition statusLine :: "string \<Rightarrow> event" where
  "statusLine status = Print (status @ [NL])"

definition retriesExhausted :: "string \<Rightarrow> event" where
  "retriesExhausted name = Print ('' [W] Maximum number of retries exhausted for package: '' @ name @ [NL])"

definition allUnpublished :: "string \<Rightarrow> event" where
  "allUnpublished name =
     Print (''[W] Package '' @ name @
       '' was found, but all its versions are unpublished, making anyone able to takeover the namespace.'' @ [NL])"

definition throttling :: event where
  "throttling = Print ('' [!] Server responded with 429 (Too many requests), throttling and retrying...'' @ [NL])"

section \<open>The pip resolver\<close>

record PythonLookup =
  Packages :: "string list"
  Verbose :: bool
  timeout :: nat
  rateLimit :: int

definition NewPythonLookup :: "bool \<Rightarrow> PythonLookup" where
  "NewPythonLookup verbose = \<lparr>Packages = [], Verbose = verbose, timeout = 30, rateLimit = 100\<rparr>"

text \<open>
  Modelled from the spec: \<^verbatim>\<open>inSlice\<close> (the resolvers' \<^verbatim>\<open>util.go\<close>) is not among the
  sources; it is membership in the slice, as the spec's delimiter list
  \<^verbatim>\<open>= < > ! ~ # [ space\<close> for pip says.
\<close>

definition inSlice :: "char \<Rightarrow> char list \<Rightarrow> bool" where
  "inSlice r delims = (r \<in> set delims)"

definition pipSplit :: "char \<Rightarrow> bool" where
  "pipSplit r = inSlice r [CHR ''='', CHR ''<'', CHR ''>'', CHR ''!'', CHR '' '', CHR ''~'', CHR ''#'', CHR ''['']"

text \<open>
  The loop of \<^verbatim>\<open>PythonLookup.ReadPackagesFromFile\<close> over the raw lines: its state is the
  pending \<open>line\<close> (the text of the continued lines so far) and the packages found.
\<close>

fun readLines :: "string \<Rightarrow> string list \<Rightarrow> string list \<Rightarrow> string list" where
  "readLines line pkgs [] = pkgs"
| "readLines line pkgs (l0 # ls) =
     (let l = TrimSpace l0 in
      if HasPrefix l ''#'' then readLines line pkgs ls
      else if length l > 0 then
        (if HasSuffix l [BSL] then readLines (line @ take (length l - 1) l) pkgs ls
         else
           (let pkgrow = FieldsFunc (line @ l) pipSplit in
            readLines [] (if length pkgrow > 0 then pkgs @ [TrimSpace (pkgrow ! 0)] else pkgs) ls))
      else readLines line pkgs ls)"

definition PythonLookup_ReadPackagesFromFile ::
  "string \<Rightarrow> PythonLookup \<Rightarrow> world \<Rightarrow> (error option \<times> PythonLookup) \<times> world" where
  "PythonLookup_ReadPackagesFromFile filename p w =
     (case ReadFile filename w of
        Inl err \<Rightarrow> ((Some err, p), w)
      | Inr rawfile \<Rightarrow> ((None, p\<lparr>Packages := readLines [] (Packages p) (Split_NL rawfile)\<rparr>), w))"

definition PythonLookup_isAvailableInPublic ::
  "network \<Rightarrow> PythonLookup \<Rightarrow> string \<Rightarrow> world \<Rightarrow> bool \<times> world" where
  "PythonLookup_isAvailableInPublic net p pkgname w =
     (let url = ''https://pypi.org/project/'' @ pkgname @ ''/'';
          w1 = emit_if (Verbose p) (checkingLine url '' : '') w;
          w2 = snd (http_Get net url w1)
      in case fst (http_Get net url w1) of
           Failed err \<Rightarrow>
             (False, emit (requestError url err) w2)
         | Response status code body \<Rightarrow>
             (let w3 = emit_if (Verbose p) (statusLine status) w2
              in if code = 200 then (True, w3) else (False, w3)))"

fun PythonLookup_notavailLoop ::
  "network \<Rightarrow> PythonLookup \<Rightarrow> string list \<Rightarrow> string list \<Rightarrow> world \<Rightarrow> string list \<times> world" where
  "PythonLookup_notavailLoop net p notavail [] w = (notavail, w)"
| "PythonLookup_notavailLoop net p notavail (pkg # pkgs) w =
     (let r = PythonLookup_isAvailableInPublic net p pkg w
      in PythonLookup_notavailLoop net p (if \<not> fst r then notavail @ [pkg] else notavail) pkgs (snd r))"

definition PythonLookup_PackagesNotInPublic ::
  "network \<Rightarrow> PythonLookup \<Rightarrow> world \<Rightarrow> string list \<times> world" where
  "PythonLookup_PackagesNotInPublic net p w = PythonLookup_notavailLoop net p [] (Packages p) w"

section \<open>The composer resolver\<close>

text \<open>
  \<^verbatim>\<open>json.Unmarshal\<close> into \<^verbatim>\<open>ComposerJSON\<close> is the platform's; its result is taken as given.
  The two Go maps are association lists here, in the order in which \<^verbatim>\<open>range\<close> happens to
  visit the keys in this run.
\<close>

record ComposerJSON =
  Require :: "(string \<times> string) list"
  RequireDev :: "(string \<times> string) list"

record ComposerPackage =
  Name :: string
  Version :: string

record ComposerLookup =
  Packages :: "ComposerPackage list"
  Verbose :: bool
  timeout :: nat
  rateLimit :: int

definition NewComposerLookup :: "bool \<Rightarrow> ComposerLookup" where
  "NewComposerLookup verbose = \<lparr>Packages = [], Verbose = verbose, timeout = 30, rateLimit = 100\<rparr>"

text \<open>
  \<open>unmarshal\<close> gives what \<^verbatim>\<open>json.Unmarshal\<close> left in \<^verbatim>\<open>data\<close> and its error, if any; the
  resolver prints the error and goes on with the data.
\<close>

definition ComposerLookup_ReadPackagesFromFile ::
  "(string \<Rightarrow> error option \<times> ComposerJSON) \<Rightarrow> string \<Rightarrow> ComposerLookup \<Rightarrow> world
     \<Rightarrow> (error option \<times> ComposerLookup) \<times> world" where
  "ComposerLookup_ReadPackagesFromFile unmarshal filename c w =
     (case ReadFile filename w of
        Inl err \<Rightarrow> ((Some err, c), w)
      | Inr rawfile \<Rightarrow>
          (let data = snd (unmarshal rawfile);
               w1 = (case fst (unmarshal rawfile) of None \<Rightarrow> w
                     | Some err \<Rightarrow> emit (Print ('' [W] Non-fatal issue encountered while reading ''
                                        @ filename @ '' : '' @ err @ [NL])) w);
               pkgs = map (\<lambda>(pkgname, pkgversion). \<lparr>Name = pkgname, Version = pkgversion\<rparr>)
           in ((None, c\<lparr>Packages := Packages c @ pkgs (Require data) @ pkgs (RequireDev data)\<rparr>), w1)))"

text \<open>
  \<^verbatim>\<open>strings.ToLower\<close> on bytes: the letters A to Z are mapped to a to z and every other
  byte is kept. Go lowers the capital letters outside ASCII as well, so that it may find
  one of the prefixes below in a few more version strings, never in fewer.
\<close>

definition lowerChar :: "char \<Rightarrow> char" where
  "lowerChar c =
     (let n = (of_char c :: nat) in if 0x41 \<le> n \<and> n \<le> 0x5A then char_of (n + 0x20) else c)"

definition ToLower :: "string \<Rightarrow> string" where
  "ToLower s = map lowerChar s"

definition localReference :: "string \<Rightarrow> bool" where
  "localReference pkgversion = HasPrefix (ToLower pkgversion) ''file:''"

definition urlReference :: "string \<Rightarrow> bool" where
  "urlReference pkgversion0 =
     (let pkgversion = ToLower pkgversion0
      in HasPrefix pkgversion ''http:'' \<or> HasPrefix pkgversion ''https:'')"

fun gitReferenceLoop :: "string \<Rightarrow> string list \<Rightarrow> bool" where
  "gitReferenceLoop pkgversion [] = False"
| "gitReferenceLoop pkgversion (r # rs) =
     (if HasPrefix pkgversion r then True else gitReferenceLoop pkgversion rs)"

definition gitReference :: "string \<Rightarrow> bool" where
  "gitReference pkgversion0 =
     (let pkgversion = ToLower pkgversion0;
          gitResources = [''git+ssh:'', ''git+http:'', ''git+https:'', ''git:'']
      in gitReferenceLoop pkgversion gitResources)"

function ComposerLookup_isAvailableInPublic ::
  "network \<Rightarrow> ComposerLookup \<Rightarrow> string \<Rightarrow> int \<Rightarrow> world \<Rightarrow> bool \<times> world" where
  "ComposerLookup_isAvailableInPublic net c pkgname retry w =
     (if retry > 3 then
        (False, emit (retriesExhausted pkgname) w)
      else
        (let url = ''https://packagist.org/packages/'' @ pkgname @ ''.json'';
             w1 = emit_if (Verbose c) (checkingLine url '' : '') w;
             w2 = snd (http_Get net url w1)
         in case fst (http_Get net url w1) of
              Failed err \<Rightarrow>
                (False, emit (requestError url err) w2)
            | Response status code body \<Rightarrow>
                (let w3 = emit_if (Verbose c) (statusLine status) w2
                 in if code = 200 then (True, w3)
                    else if code = 429 then
                      ComposerLookup_isAvailableInPublic net c pkgname (retry + 1)
                        (emit (Sleep 10) (emit throttling w3))
                    else (False, w3))))"
  by pat_completeness auto
termination
  by (relation "measure (\<lambda>(net, c, pkgname, retry, w). nat (4 - retry))") auto

fun ComposerLookup_notavailLoop ::
  "network \<Rightarrow> ComposerLookup \<Rightarrow> string list \<Rightarrow> ComposerPackage list \<Rightarrow> world \<Rightarrow> string list \<times> world" where
  "ComposerLookup_notavailLoop net c notavail [] w = (notavail, w)"
| "ComposerLookup_notavailLoop net c notavail (pkg # pkgs) w =
     (if localReference (Version pkg) \<or> urlReference (Version pkg) \<or> gitReference (Version pkg)
      then ComposerLookup_notavailLoop net c notavail pkgs w
      else
        (let r = ComposerLookup_isAvailableInPublic net c (Name pkg) 0 w
         in ComposerLookup_notavailLoop net c (if \<not> fst r then notavail @ [Name pkg] else notavail) pkgs (snd r)))"

definition ComposerLookup_PackagesNotInPublic ::
  "network \<Rightarrow> ComposerLookup \<Rightarrow> world \<Rightarrow> string list \<times> world" where
  "ComposerLookup_PackagesNotInPublic net c w = ComposerLookup_notavailLoop net c [] (Packages c) w"

section \<open>The maven resolver\<close>

text \<open>
  Modelled from the spec: the type \<^verbatim>\<open>MavenProject\<close> (the resolvers' \<^verbatim>\<open>mvnparser.go\<close>) is
  not among the sources. It has the parts that \<^verbatim>\<open>MVNLookup.ReadPackagesFromFile\<close> reads, which
  are the spec's "\<^verbatim>\<open>dependencies\<close>, \<^verbatim>\<open>build.plugins\<close>, and each \<^verbatim>\<open>profile.build.plugins\<close>
  entry, producing (group, artifact, version) triples".
\<close>

record MavenEntry =
  GroupId :: string
  ArtifactId :: string
  Version :: string

record MavenBuild =
  Plugins :: "MavenEntry list"

record MavenProfile =
  Build :: MavenBuild

record MavenProject =
  Dependencies :: "MavenEntry list"
  Build :: MavenBuild
  Profiles :: "MavenProfile list"

record MVNPackage =
  Group :: string
  Artifact :: string
  Version :: string

record MVNLookup =
  Packages :: "MVNPackage list"
  Verbose :: bool
  timeout :: nat
  rateLimit :: int

definition NewMVNLookup :: "bool \<Rightarrow> MVNLookup" where
  "NewMVNLookup verbose = \<lparr>Packages = [], Verbose = verbose, timeout = 30, rateLimit = 100\<rparr>"

definition fromEntry :: "MavenEntry \<Rightarrow> MVNPackage" where
  "fromEntry dep = \<lparr>Group = GroupId dep, Artifact = ArtifactId dep, Version = MavenEntry.Version dep\<rparr>"

text \<open>
  \<open>unmarshal\<close> is \<^verbatim>\<open>xml.Unmarshal\<close> into a \<^verbatim>\<open>MavenProject\<close>: the decoded project, or the
  error of an input that is not well-formed XML.
\<close>

definition MVNLookup_ReadPackagesFromFile ::
  "(string \<Rightarrow> error + MavenProject) \<Rightarrow> string \<Rightarrow> MVNLookup \<Rightarrow> world
     \<Rightarrow> (error option \<times> MVNLookup) \<times> world" where
  "MVNLookup_ReadPackagesFromFile unmarshal filename n w =
     (case ReadFile filename w of
        Inl err \<Rightarrow> ((Some err, n), w)
      | Inr rawfile \<Rightarrow>
          (let w1 = emit_if (Verbose n) (Print (''Checking: filename: '' @ filename @ [NL])) w
           in if length rawfile < 10 then
                ((None, n),
                 emit_if (Verbose n) (Print (''Skipping empty or too small POM file: '' @ filename @ [NL])) w1)
              else
                (case unmarshal rawfile of
                   Inl err \<Rightarrow>
                     ((None, n),
                      emit_if (Verbose n)
                        (Print (''Warning: unable to parse POM file '' @ filename @ '': '' @ err @ [NL])) w1)
                 | Inr project \<Rightarrow>
                     ((None, n\<lparr>Packages := Packages n
                          @ map fromEntry (Dependencies project)
                          @ map fromEntry (Plugins (MavenProject.Build project))
                          @ concat (map (\<lambda>build. map fromEntry (Plugins (MavenProfile.Build build)))
                              (Profiles project))\<rparr>), w1))))"

text \<open>\<^verbatim>\<open>strings.Replace(s, ".", "/", -1)\<close>\<close>

definition dotsToSlashes :: "string \<Rightarrow> string" where
  "dotsToSlashes s = map (\<lambda>c. if c = CHR ''.'' then CHR ''/'' else c) s"

text \<open>
  \<open>unpublished body\<close> stands for decoding the body into an \<^verbatim>\<open>NpmResponse\<close> and asking it
  \<^verbatim>\<open>NotAvailable()\<close>; the type and the method are the npm resolver's, which is not among the
  sources.
\<close>

function MVNLookup_isAvailableInPublic ::
  "network \<Rightarrow> (string \<Rightarrow> bool) \<Rightarrow> MVNLookup \<Rightarrow> MVNPackage \<Rightarrow> int \<Rightarrow> world \<Rightarrow> bool \<times> world" where
  "MVNLookup_isAvailableInPublic net unpublished n pkg retry w =
     (if retry > 3 then
        (False, emit (retriesExhausted (Group pkg)) w)
      else if Group pkg = [] then (True, w)
      else
        (let group = dotsToSlashes (Group pkg);
             url = ''https://repo1.maven.org/maven2/'' @ group @ ''/'';
             w1 = emit_if (Verbose n) (checkingLine url '' '') w;
             w2 = snd (http_Get net url w1)
         in case fst (http_Get net url w1) of
              Failed err \<Rightarrow>
                (False, emit (requestError url err) w2)
            | Response status code body \<Rightarrow>
                (let w3 = emit_if (Verbose n) (statusLine status) w2
                 in if code = 200 then
                      (if unpublished body then
                         (False, emit_if (Verbose n) (allUnpublished (Group pkg)) w3)
                       else (True, w3))
                    else if code = 429 then
                      MVNLookup_isAvailableInPublic net unpublished n pkg (retry + 1)
                        (emit (Sleep 10) (emit throttling w3))
                    else (False, w3))))"
  by pat_completeness auto
termination
  by (relation "measure (\<lambda>(net, unpublished, n, pkg, retry, w). nat (4 - retry))") auto

fun MVNLookup_notavailLoop ::
  "network \<Rightarrow> (string \<Rightarrow> bool) \<Rightarrow> MVNLookup \<Rightarrow> string list \<Rightarrow> MVNPackage list \<Rightarrow> world
     \<Rightarrow> string list \<times> world" where
  "MVNLookup_notavailLoop net unpublished n notavail [] w = (notavail, w)"
| "MVNLookup_notavailLoop net unpublished n notavail (pkg # pkgs) w =
     (let r = MVNLookup_isAvailableInPublic net unpublished n pkg 0 w
      in MVNLookup_notavailLoop net unpublished n
           (if \<not> fst r then notavail @ [Group pkg @ ''/'' @ Artifact pkg] else notavail) pkgs (snd r))"

definition MVNLookup_PackagesNotInPublic ::
  "network \<Rightarrow> (string \<Rightarrow> bool) \<Rightarrow> MVNLookup \<Rightarrow> world \<Rightarrow> string list \<times> world" where
  "MVNLookup_PackagesNotInPublic net unpublished n w =
     MVNLookup_notavailLoop net unpublished n [] (Packages n) w"

section \<open>Scan results\<close>

text \<open>
  \<^verbatim>\<open>types.ScanResult\<close>. The two wall-clock fields, \<^verbatim>\<open>Timestamp\<close> and \<^verbatim>\<open>Duration\<close>, are left
  out: the world of the model has no clock. The values of the metadata map are strings
  and integers.
\<close>

datatype metavalue = MString string | MInt int

record ScanResult =
  Target :: string
  Type :: string
  Language :: string
  Vulnerable :: "string list"
  Safe :: "string list"
  Total :: int
  Metadata :: "string \<rightharpoonup> metavalue"

definition NewScanResult :: "string \<Rightarrow> string \<Rightarrow> string \<Rightarrow> ScanResult" where
  "NewScanResult target scanType language =
     \<lparr>Target = target, Type = scanType, Language = language, Vulnerable = [], Safe = [],
      Total = 0, Metadata = Map.empty\<rparr>"

definition AddVulnerable :: "string \<Rightarrow> ScanResult \<Rightarrow> ScanResult" where
  "AddVulnerable pkg sr = sr\<lparr>Vulnerable := Vulnerable sr @ [pkg]\<rparr>"

definition AddSafe :: "string \<Rightarrow> ScanResult \<Rightarrow> ScanResult" where
  "AddSafe pkg sr = sr\<lparr>Safe := Safe sr @ [pkg]\<rparr>"

definition Finalize :: "ScanResult \<Rightarrow> ScanResult" where
  "Finalize sr = sr\<lparr>Total := int (length (Vulnerable sr)) + int (length (Safe sr))\<rparr>"

definition IsVulnerable :: "ScanResult \<Rightarrow> bool" where
  "IsVulnerable sr = (length (Vulnerable sr) > 0)"

text \<open>The loop \<^verbatim>\<open>for _, pkg := range vulnerablePackages { result.AddVulnerable(pkg) }\<close>.\<close>

fun addAll :: "string list \<Rightarrow> ScanResult \<Rightarrow> ScanResult" where
  "addAll [] result = result"
| "addAll (pkg # pkgs) result = addAll pkgs (AddVulnerable pkg result)"

section \<open>The platform\<close>

text \<open>
  What the scan flows call outside the sources at hand is gathered in a \<open>platform\<close>, over
  the type \<open>'r\<close> of the resolver objects:
  \<^item> the resolver factory (\<^verbatim>\<open>GetResolverForLanguage\<close> and \<^verbatim>\<open>GetResolverForLanguageWithVerbose\<close>
    switch on the language and also build the npm and the rubygems resolver, which are
    not among the sources) and the two methods of \<^verbatim>\<open>types.PackageResolver\<close> that the
    flows call;
  \<^item> \<^verbatim>\<open>filepath.Match\<close>, \<^verbatim>\<open>filepath.Join\<close>, \<^verbatim>\<open>url.Parse\<close>, \<^verbatim>\<open>URL.String\<close>,
    \<^verbatim>\<open>http.NewRequest\<close> (its error) and the name that \<^verbatim>\<open>os.CreateTemp\<close> picks;
  \<^item> the web servers, and the blob API of GitHub.
\<close>

record URL =
  Scheme :: string
  Host :: string
  Path :: string

record Blob =
  Content :: "string option"
  Encoding :: "string option"

record TreeEntry =
  SHA :: string
  Path :: string
  Size :: int

record 'r platform =
  GetResolverForLanguage :: "string \<Rightarrow> error + 'r"
  GetResolverForLanguageWithVerbose :: "string \<Rightarrow> bool \<Rightarrow> error + 'r"
  ReadPackagesFromFile :: "string \<Rightarrow> 'r \<Rightarrow> world \<Rightarrow> (error option \<times> 'r) \<times> world"
  PackagesNotInPublic :: "'r \<Rightarrow> world \<Rightarrow> string list \<times> world"
  Match :: "string \<Rightarrow> string \<Rightarrow> error + bool"
  Join :: "string \<Rightarrow> string \<Rightarrow> string"
  Parse :: "string \<Rightarrow> error + URL"
  String :: "URL \<Rightarrow> string"
  NewRequest :: "string \<Rightarrow> error option"
  CreateTemp :: "string \<Rightarrow> world \<Rightarrow> error + string"
  web :: network
  GetBlob :: "string \<Rightarrow> string \<Rightarrow> string \<Rightarrow> error + Blob"

text \<open>
  \<^verbatim>\<open>createTempFile\<close>, the same in the GitHub client and in the web scanner up to the name
  pattern: a new file with the content, or an error and no file.
\<close>

definition createTempFile :: "'r platform \<Rightarrow> string \<Rightarrow> string \<Rightarrow> world \<Rightarrow> (error + string) \<times> world" where
  "createTempFile P pattern content w =
     (case CreateTemp P pattern w of
        Inl err \<Rightarrow> (Inl err, w)
      | Inr name \<Rightarrow> (Inr name, w\<lparr>files := (files w)(name \<mapsto> content)\<rparr>))"

definition Remove :: "string \<Rightarrow> world \<Rightarrow> world" where
  "Remove name w = w\<lparr>files := (files w)(name := None)\<rparr>"

text \<open>\<^verbatim>\<open>filepath.Base\<close> on a Unix path.\<close>

definition isSlash :: "char \<Rightarrow> bool" where
  "isSlash c = (c = CHR ''/'')"

definition Base :: "string \<Rightarrow> string" where
  "Base path0 =
     (if path0 = [] then ''.''
      else
        (let path = rev (dropWhile isSlash (rev path0));
             last_elem = rev (takeWhile (\<lambda>c. \<not> isSlash c) (rev path))
         in if last_elem = [] then ''/'' else last_elem))"

text \<open>\<^verbatim>\<open>getLanguageFromFile\<close>, the same table in the GitHub client and in the web scanner.\<close>

definition fileLanguageMap :: "string \<rightharpoonup> string" where
  "fileLanguageMap = map_of
     [(''package.json'', ''npm''), (''package-lock.json'', ''npm''), (''yarn.lock'', ''npm''),
      (''requirements.txt'', ''pip''), (''requirements-dev.txt'', ''pip''), (''setup.py'', ''pip''),
      (''pyproject.toml'', ''pip''), (''composer.json'', ''composer''), (''composer.lock'', ''composer''),
      (''pom.xml'', ''mvn''), (''Gemfile'', ''rubygems''), (''Gemfile.lock'', ''rubygems''),
      (''gems.rb'', ''rubygems'')]"

definition getLanguageFromFile :: "string \<Rightarrow> string" where
  "getLanguageFromFile filePath =
     (case fileLanguageMap (Base filePath) of None \<Rightarrow> [] | Some language \<Rightarrow> language)"

section \<open>Safe spaces\<close>

text \<open>
  \<^verbatim>\<open>removeSafe\<close>, the same in \<^verbatim>\<open>commands.go\<close> and in the GitHub client. The inner loop looks
  for a safe space that matches the package; a pattern that \<^verbatim>\<open>filepath.Match\<close> rejects is
  logged and passed over.
\<close>

definition matchWarning :: "string \<Rightarrow> error \<Rightarrow> event" where
  "matchWarning safeSpace err =
     Log WARN (''Encountered an error while trying to match a known-safe namespace ''
       @ safeSpace @ '': '' @ err)"

fun ignoredLoop :: "(string \<Rightarrow> string \<Rightarrow> error + bool) \<Rightarrow> string \<Rightarrow> string list \<Rightarrow> world \<Rightarrow> bool \<times> world" where
  "ignoredLoop match pkg [] w = (False, w)"
| "ignoredLoop match pkg (safeSpace # rest) w =
     (case match safeSpace pkg of
        Inl err \<Rightarrow> ignoredLoop match pkg rest (emit (matchWarning safeSpace err) w)
      | Inr ok \<Rightarrow> if ok then (True, w) else ignoredLoop match pkg rest w)"

fun removeSafeLoop ::
  "(string \<Rightarrow> string \<Rightarrow> error + bool) \<Rightarrow> string list \<Rightarrow> string list \<Rightarrow> string list \<Rightarrow> world
     \<Rightarrow> string list \<times> world" where
  "removeSafeLoop match retSlice [] safeSpaces w = (retSlice, w)"
| "removeSafeLoop match retSlice (pkg # pkgs) safeSpaces w =
     (let r = ignoredLoop match pkg safeSpaces w
      in removeSafeLoop match (if \<not> fst r then retSlice @ [pkg] else retSlice) pkgs safeSpaces (snd r))"

definition removeSafe ::
  "(string \<Rightarrow> string \<Rightarrow> error + bool) \<Rightarrow> string list \<Rightarrow> string list \<Rightarrow> world \<Rightarrow> string list \<times> world" where
  "removeSafe match packages safeSpaces w =
     (if length safeSpaces = 0 then (packages, w)
      else removeSafeLoop match [] packages safeSpaces w)"

definition Client_removeSafe ::
  "(string \<Rightarrow> string \<Rightarrow> error + bool) \<Rightarrow> string list \<Rightarrow> string list \<Rightarrow> world \<Rightarrow> string list \<times> world" where
  "Client_removeSafe match packages safeSpaces w =
     (if length safeSpaces = 0 then (packages, w)
      else removeSafeLoop match [] packages safeSpaces w)"

section \<open>Scanning a local file\<close>

text \<open>
  \<^verbatim>\<open>printResult\<close> and \<^verbatim>\<open>runScanCommand\<close> of \<^verbatim>\<open>commands.go\<close>. \<open>verbose\<close> and \<open>workers\<close> are
  \<^verbatim>\<open>cfg.Verbose\<close> and \<^verbatim>\<open>cfg.Workers\<close>. The command returns an error, or the finalized result
  together with the exit status; saving the result to a file named after the time of day
  is left out.
\<close>

fun warnEach :: "string list \<Rightarrow> world \<Rightarrow> world" where
  "warnEach [] w = w"
| "warnEach (pkg # pkgs) w = warnEach pkgs (emit (Log WARN ('' [!] '' @ pkg)) w)"

definition printResult :: "ScanResult \<Rightarrow> world \<Rightarrow> world" where
  "printResult result w =
     (if \<not> IsVulnerable result then
        emit (Log INFO ''In case your application uses private repositories please make sure that those namespaces in public repositories are controlled by a trusted party.'')
          (emit (Log INFO ''All packages seem to be available in the public repositories.'') w)
      else
        warnEach (Vulnerable result)
          (emit (Log WARN ''Issues found, the following packages are not available in public package repositories:'') w))"

definition runScanCommand ::
  "'r platform \<Rightarrow> bool \<Rightarrow> int \<Rightarrow> string \<Rightarrow> string \<Rightarrow> string list \<Rightarrow> world
     \<Rightarrow> (error + ScanResult \<times> int) \<times> world" where
  "runScanCommand P verbose workers filename language safeSpaces w =
     (let w0 = emit (Log INFO (''Workers: '' @ Itoa workers))
                 (emit (Log INFO (''Language: '' @ language))
                   (emit (Log INFO (''Target: '' @ filename))
                     (emit (Log INFO ''Starting dependency confusion scan...'') w)));
          result = NewScanResult filename ''file'' language
      in case GetResolverForLanguageWithVerbose P language verbose of
           Inl err \<Rightarrow> (Inl (''failed to get resolver for language '' @ language @ '': '' @ err), w0)
         | Inr resolver \<Rightarrow>
             (case ReadPackagesFromFile P filename resolver w0 of
                ((Some err, resolver1), w1) \<Rightarrow> (Inl (''failed to read packages from file: '' @ err), w1)
              | ((None, resolver1), w1) \<Rightarrow>
                  (case PackagesNotInPublic P resolver1 w1 of
                     (vulnerablePackages, w2) \<Rightarrow>
                       (case removeSafe (Match P) vulnerablePackages safeSpaces w2 of
                          (vulnerablePackages1, w3) \<Rightarrow>
                            (let result1 = Finalize (addAll vulnerablePackages1 result)
                             in (Inr (result1, if IsVulnerable result1 then 1 else 0),
                                 printResult result1 w3))))))"

section \<open>Scanning a file of a GitHub repository\<close>

definition GetContent :: "Blob \<Rightarrow> string" where
  "GetContent blob = (case Content blob of None \<Rightarrow> [] | Some content \<Rightarrow> content)"

definition getFileContent :: "'r platform \<Rightarrow> string \<Rightarrow> string \<Rightarrow> string \<Rightarrow> error + string" where
  "getFileContent P owner repo sha =
     (case GetBlob P owner repo sha of
        Inl err \<Rightarrow> Inl err
      | Inr blob \<Rightarrow> Inr (GetContent blob))"

text \<open>\<^verbatim>\<open>Client.scanDependencyFile\<close>; \<open>verbose\<close> is \<^verbatim>\<open>gc.config.Verbose\<close>.\<close>

definition Client_scanDependencyFile ::
  "'r platform \<Rightarrow> bool \<Rightarrow> string \<Rightarrow> string \<Rightarrow> TreeEntry \<Rightarrow> string list \<Rightarrow> world
     \<Rightarrow> (error + ScanResult) \<times> world" where
  "Client_scanDependencyFile P verbose owner repo file safeSpaces w =
     (case getFileContent P owner repo (SHA file) of
        Inl err \<Rightarrow> (Inl (''failed to get file content: '' @ err), w)
      | Inr content \<Rightarrow>
          (let language = getLanguageFromFile (TreeEntry.Path file)
           in if language = [] then (Inl (''unknown language for file: '' @ TreeEntry.Path file), w)
              else
                (let result = NewScanResult (owner @ ''/'' @ repo @ '':'' @ TreeEntry.Path file) ''github'' language
                 in case GetResolverForLanguageWithVerbose P language verbose of
                      Inl err \<Rightarrow> (Inl (''failed to get resolver for language '' @ language @ '': '' @ err), w)
                    | Inr resolver \<Rightarrow>
                        (case createTempFile P ''confused-*.tmp'' content w of
                           (Inl err, w1) \<Rightarrow> (Inl (''failed to create temporary file: '' @ err), w1)
                         | (Inr tempFile, w1) \<Rightarrow>
                             (case ReadPackagesFromFile P tempFile resolver w1 of
                                ((Some err, resolver1), w2) \<Rightarrow>
                                  (Inl (''failed to read packages from file: '' @ err), Remove tempFile w2)
                              | ((None, resolver1), w2) \<Rightarrow>
                                  (case PackagesNotInPublic P resolver1 w2 of
                                     (vulnerablePackages, w3) \<Rightarrow>
                                       (case Client_removeSafe (Match P) vulnerablePackages safeSpaces w3 of
                                          (vulnerablePackages1, w4) \<Rightarrow>
                                            (let result1 = addAll vulnerablePackages1 result;
                                                 result2 = result1\<lparr>Metadata := (Metadata result1)
                                                   (''file_path'' \<mapsto> MString (TreeEntry.Path file),
                                                    ''file_sha'' \<mapsto> MString (SHA file),
                                                    ''file_size'' \<mapsto> MInt (Size file))\<rparr>
                                             in (Inr (Finalize result2), Remove tempFile w4)))))))))"

section \<open>Scanning a web target\<close>

definition getDependencyFilePaths :: "string list \<Rightarrow> string list" where
  "getDependencyFilePaths languages =
     (let commonPaths =
            [''package.json'', ''package-lock.json'', ''yarn.lock'', ''requirements.txt'',
             ''requirements-dev.txt'', ''setup.py'', ''pyproject.toml'', ''composer.json'',
             ''composer.lock'', ''pom.xml'', ''Gemfile'', ''Gemfile.lock'', ''gems.rb''];
          languagePaths = map_of
            [(''npm'', [''package.json'', ''package-lock.json'', ''yarn.lock'']),
             (''pip'', [''requirements.txt'', ''requirements-dev.txt'', ''setup.py'', ''pyproject.toml'']),
             (''composer'', [''composer.json'', ''composer.lock'']),
             (''mvn'', [''pom.xml'']),
             (''rubygems'', [''Gemfile'', ''Gemfile.lock'', ''gems.rb''])]
      in if length languages > 0 then
           concat (map (\<lambda>lang. case languagePaths lang of None \<Rightarrow> [] | Some langPaths \<Rightarrow> langPaths) languages)
         else commonPaths)"

text \<open>
  \<^verbatim>\<open>Scanner.scanDependencyFile\<close>. The request goes to the platform's web servers with the
  scanner's client; reading the body of a response does not fail in the model. \<open>languages\<close>
  is passed along and not used, as in the source.
\<close>

definition Scanner_scanDependencyFile ::
  "'r platform \<Rightarrow> URL \<Rightarrow> string \<Rightarrow> string list \<Rightarrow> world \<Rightarrow> (error + ScanResult) \<times> world" where
  "Scanner_scanDependencyFile P baseURL filePath languages w =
     (let fileURL = baseURL\<lparr>URL.Path := Join P (URL.Path baseURL) filePath\<rparr>;
          w0 = emit (Log DEBUG (''Checking: '' @ String P fileURL)) w
      in case NewRequest P (String P fileURL) of
           Some err \<Rightarrow> (Inl err, w0)
         | None \<Rightarrow>
             (case http_Get (web P) (String P fileURL) w0 of
                (Failed err, w1) \<Rightarrow> (Inl err, w1)
              | (Response status code content, w1) \<Rightarrow>
                  if code \<noteq> 200 then (Inl (''file not found (status: '' @ decimal code @ '')''), w1)
                  else
                    (let language = getLanguageFromFile filePath
                     in if language = [] then (Inl (''unknown language for file: '' @ filePath), w1)
                        else
                          (let result = NewScanResult (Host baseURL @ '':'' @ filePath) ''web'' language
                           in case GetResolverForLanguage P language of
                                Inl err \<Rightarrow>
                                  (Inl (''failed to get resolver for language '' @ language @ '': '' @ err), w1)
                              | Inr resolver \<Rightarrow>
                                  (case createTempFile P ''confused-web-*.tmp'' content w1 of
                                     (Inl err, w2) \<Rightarrow> (Inl (''failed to create temporary file: '' @ err), w2)
                                   | (Inr tempFile, w2) \<Rightarrow>
                                       (case ReadPackagesFromFile P tempFile resolver w2 of
                                          ((Some err, resolver1), w3) \<Rightarrow>
                                            (Inl err, Remove tempFile
                                               (emit (Log DEBUG (''Failed to parse '' @ filePath @ '': '' @ err)) w3))
                                        | ((None, resolver1), w3) \<Rightarrow>
                                            (case PackagesNotInPublic P resolver1 w3 of
                                               (vulnerablePackages, w4) \<Rightarrow>
                                                 (let result1 = addAll vulnerablePackages result;
                                                      result2 = result1\<lparr>Metadata := (Metadata result1)
                                                        (''file_path'' \<mapsto> MString filePath,
                                                         ''file_url'' \<mapsto> MString (String P fileURL),
                                                         ''file_size'' \<mapsto> MInt (int (length content)),
                                                         ''status_code'' \<mapsto> MInt (int code))\<rparr>
                                                  in (Inr (Finalize result2), Remove tempFile w4)))))))))"

text \<open>The loop of \<^verbatim>\<open>Scanner.scanDirectory\<close>, which drops the files it cannot scan.\<close>

fun scanDirectoryLoop ::
  "'r platform \<Rightarrow> URL \<Rightarrow> string \<Rightarrow> string list \<Rightarrow> ScanResult list \<Rightarrow> string list \<Rightarrow> world
     \<Rightarrow> ScanResult list \<times> world" where
  "scanDirectoryLoop P baseURL dir languages results [] w = (results, w)"
| "scanDirectoryLoop P baseURL dir languages results (filePath # filePaths) w =
     (case Scanner_scanDependencyFile P baseURL (Join P dir filePath) languages w of
        (Inl err, w1) \<Rightarrow> scanDirectoryLoop P baseURL dir languages results filePaths w1
      | (Inr result, w1) \<Rightarrow> scanDirectoryLoop P baseURL dir languages (results @ [result]) filePaths w1)"

definition scanDirectory ::
  "'r platform \<Rightarrow> URL \<Rightarrow> string \<Rightarrow> string list \<Rightarrow> world \<Rightarrow> (error + ScanResult list) \<times> world" where
  "scanDirectory P baseURL dir languages w =
     (case scanDirectoryLoop P baseURL dir languages [] (getDependencyFilePaths languages) w of
        (results, w1) \<Rightarrow> (Inr results, w1))"

fun deepScanLoop ::
  "'r platform \<Rightarrow> URL \<Rightarrow> string list \<Rightarrow> ScanResult list \<Rightarrow> string list \<Rightarrow> world
     \<Rightarrow> ScanResult list \<times> world" where
  "deepScanLoop P baseURL languages results [] w = (results, w)"
| "deepScanLoop P baseURL languages results (dir # dirs) w =
     (case scanDirectory P baseURL dir languages w of
        (Inl err, w1) \<Rightarrow>
          deepScanLoop P baseURL languages results dirs
            (emit (Log DEBUG (''Failed to scan directory '' @ dir @ '': '' @ err)) w1)
      | (Inr dirResults, w1) \<Rightarrow> deepScanLoop P baseURL languages (results @ dirResults) dirs w1)"

definition deepScan ::
  "'r platform \<Rightarrow> URL \<Rightarrow> string list \<Rightarrow> int \<Rightarrow> world \<Rightarrow> (error + ScanResult list) \<times> world" where
  "deepScan P baseURL languages maxDepth w =
     (let commonDirs = [''src/'', ''lib/'', ''app/'', ''web/'', ''public/'', ''static/'',
                        ''api/'', ''backend/'', ''frontend/'', ''client/'', ''server/'']
      in case deepScanLoop P baseURL languages [] commonDirs w of
           (results, w1) \<Rightarrow> (Inr results, w1))"

fun scanTargetLoop ::
  "'r platform \<Rightarrow> URL \<Rightarrow> string list \<Rightarrow> ScanResult list \<Rightarrow> string list \<Rightarrow> world
     \<Rightarrow> ScanResult list \<times> world" where
  "scanTargetLoop P u languages results [] w = (results, w)"
| "scanTargetLoop P u languages results (filePath # filePaths) w =
     (case Scanner_scanDependencyFile P u filePath languages w of
        (Inl err, w1) \<Rightarrow>
          scanTargetLoop P u languages results filePaths
            (emit (Log DEBUG (''Failed to scan '' @ filePath @ '': '' @ err)) w1)
      | (Inr result, w1) \<Rightarrow> scanTargetLoop P u languages (results @ [result]) filePaths w1)"

definition ScanTarget ::
  "'r platform \<Rightarrow> string \<Rightarrow> string list \<Rightarrow> bool \<Rightarrow> int \<Rightarrow> world \<Rightarrow> (error + ScanResult list) \<times> world" where
  "ScanTarget P target0 languages deep maxDepth w =
     (let target = (if \<not> HasPrefix target0 ''http://'' \<and> \<not> HasPrefix target0 ''https://''
                    then ''https://'' @ target0 else target0)
      in case Parse P target of
           Inl err \<Rightarrow> (Inl (''invalid URL: '' @ err), w)
         | Inr u \<Rightarrow>
             (case scanTargetLoop P u languages [] (getDependencyFilePaths languages)
                     (emit (Log INFO (''Scanning web target: '' @ target)) w) of
                (results, w1) \<Rightarrow>
                  if deep then
                    (case deepScan P u languages maxDepth w1 of
                       (Inl err, w2) \<Rightarrow> (Inr results, emit (Log WARN (''Deep scan failed: '' @ err)) w2)
                     | (Inr deepResults, w2) \<Rightarrow> (Inr (results @ deepResults), w2))
                  else (Inr results, w1)))"

text \<open>
  The web command of \<^verbatim>\<open>commands.go\<close>. Its flags are a record: the command declares
  \<^verbatim>\<open>safe-spaces\<close> and \<^verbatim>\<open>wordlist\<close> with the others but reads neither. The targets are the
  arguments of the command, or the lines of the target file when one is given.
\<close>

record webFlags =
  flag_languages :: "string list"
  flag_safe_spaces :: "string list"
  flag_deep :: bool
  flag_wordlist :: "string list"
  flag_max_depth :: int
  flag_workers :: int

text \<open>\<^verbatim>\<open>strings.Join\<close>, and a boolean as the verb \<^verbatim>\<open>%v\<close> prints it.\<close>

fun strings_Join :: "string list \<Rightarrow> string \<Rightarrow> string" where
  "strings_Join [] sep = []"
| "strings_Join [e] sep = e"
| "strings_Join (e # f # es) sep = e @ sep @ strings_Join (f # es) sep"

definition formatBool :: "bool \<Rightarrow> string" where
  "formatBool b = (if b then ''true'' else ''false'')"

text \<open>
  \<^verbatim>\<open>processWebTargetsWithWorkers\<close> starts \<open>workers\<close> goroutines that take the targets from a
  channel. The model is the schedule in which the targets are scanned one after the other
  in the order given, as with one worker; without a worker (\<open>workers\<close> at most 0) no target
  is taken from the channel and there is no result.
\<close>

fun processWebTargets ::
  "'r platform \<Rightarrow> string list \<Rightarrow> string list \<Rightarrow> bool \<Rightarrow> int \<Rightarrow> ScanResult list \<Rightarrow> world
     \<Rightarrow> ScanResult list \<times> world" where
  "processWebTargets P [] languages deep maxDepth allResults w = (allResults, w)"
| "processWebTargets P (target # targets) languages deep maxDepth allResults w =
     (case ScanTarget P target languages deep maxDepth (emit (Log INFO (''Scanning target: '' @ target)) w) of
        (Inl err, w1) \<Rightarrow>
          processWebTargets P targets languages deep maxDepth allResults
            (emit (Log WARN (''Failed to scan target '' @ target @ '': '' @ err)) w1)
      | (Inr results, w1) \<Rightarrow>
          processWebTargets P targets languages deep maxDepth (allResults @ results) w1)"

definition processWebTargetsWithWorkers ::
  "'r platform \<Rightarrow> string list \<Rightarrow> string list \<Rightarrow> bool \<Rightarrow> int \<Rightarrow> int \<Rightarrow> world
     \<Rightarrow> ScanResult list \<times> world" where
  "processWebTargetsWithWorkers P targets languages deep maxDepth workers w =
     (if workers \<le> 0 then ([], w)
      else processWebTargets P targets languages deep maxDepth [] w)"

text \<open>
  \<^verbatim>\<open>runWebCommand\<close>: the six lines it logs first, among them the maximum depth, the scan
  of the targets, and \<^verbatim>\<open>printResult\<close> for every result. Saving the results to a file named
  after the time of day is left out.
\<close>

fun printEach :: "ScanResult list \<Rightarrow> world \<Rightarrow> world" where
  "printEach [] w = w"
| "printEach (result # results) w = printEach results (printResult result w)"

definition runWebCommand :: "'r platform \<Rightarrow> webFlags \<Rightarrow> string list \<Rightarrow> world \<Rightarrow> ScanResult list \<times> world" where
  "runWebCommand P flags targets w =
     (let languages = flag_languages flags;
          deep = flag_deep flags;
          maxDepth = flag_max_depth flags;
          workers = flag_workers flags;
          w0 = emit (Log INFO (''Workers: '' @ Itoa workers))
                 (emit (Log INFO (''Max depth: '' @ Itoa maxDepth))
                   (emit (Log INFO (''Deep scan: '' @ formatBool deep))
                     (emit (Log INFO (''Languages: '' @ strings_Join languages '', ''))
                       (emit (Log INFO (''Targets: '' @ Itoa (int (length targets))))
                         (emit (Log INFO ''Starting web target scan...'') w)))))
      in case processWebTargetsWithWorkers P targets languages deep maxDepth workers w0 of
           (results, w1) \<Rightarrow> (results, printEach results w1))"

section \<open>An example platform\<close>

text \<open>
  The properties of the scan flows hold for every platform. To run a flow on a concrete
  input a platform is needed; this one has the pip resolver of the sources as its only
  resolver (its factory is the one of the sources at \<^verbatim>\<open>pip\<close>) and plain versions of the library functions, which agree with the Go library
  on the ASCII inputs of the examples below: \<open>globMatch\<close> follows the grammar of
  \<^verbatim>\<open>filepath.Match\<close> (\<^verbatim>\<open>*\<close> and \<^verbatim>\<open>?\<close> do not match a slash, a malformed pattern is an error),
  \<open>joinPath\<close> joins two path elements that have no dot segments, \<open>parseURL\<close> reads
  \<^verbatim>\<open>scheme://host/path\<close>, and \<^verbatim>\<open>os.CreateTemp\<close> always picks the same free name.
\<close>

datatype glob = Star | AnyChar | Lit char | Class bool "(char \<times> char) list"

fun getEsc :: "string \<Rightarrow> (char \<times> string) option" where
  "getEsc [] = None"
| "getEsc (c # r) =
     (if c = CHR ''-'' \<or> c = CHR '']'' then None
      else if c = BSL then (case r of [] \<Rightarrow> None | d # r1 \<Rightarrow> if r1 = [] then None else Some (d, r1))
      else if r = [] then None else Some (c, r))"

function parseRanges :: "(char \<times> char) list \<Rightarrow> string \<Rightarrow> ((char \<times> char) list \<times> string) option" where
  "parseRanges acc chunk =
     (if chunk \<noteq> [] \<and> hd chunk = CHR '']'' \<and> acc \<noteq> [] then Some (acc, tl chunk)
      else
        (case getEsc chunk of
           None \<Rightarrow> None
         | Some (lo, chunk1) \<Rightarrow>
             if hd chunk1 = CHR ''-'' then
               (case getEsc (tl chunk1) of
                  None \<Rightarrow> None
                | Some (hi, chunk2) \<Rightarrow> parseRanges (acc @ [(lo, hi)]) chunk2)
             else parseRanges (acc @ [(lo, lo)]) chunk1))"
  by pat_completeness auto
termination
proof (relation "measure (\<lambda>(acc, chunk). length chunk)", goal_cases)
  case 1
  show ?case by simp
next
  case (2 acc chunk x2 lo chunk1 x2a hi chunk2)
  have shorter: "length t < length s" if "getEsc s = Some (x, t)" for s x t
    using that by (cases s) (auto split: if_splits list.splits)
  have "length chunk1 < length chunk" using 2(2,3) shorter[of chunk lo chunk1] by simp
  moreover have "length chunk2 < length (tl chunk1)" using 2(5,6) shorter[of "tl chunk1" hi chunk2] by simp
  ultimately show ?case by simp
next
  case (3 acc chunk x2 lo chunk1)
  have shorter: "length t < length s" if "getEsc s = Some (x, t)" for s x t
    using that by (cases s) (auto split: if_splits list.splits)
  show ?case using 3(2,3) shorter[of chunk lo chunk1] by simp
qed

function parseGlob :: "string \<Rightarrow> glob list option" where
  "parseGlob [] = Some []"
| "parseGlob (c # r) =
     (if c = CHR ''*'' then map_option ((#) Star) (parseGlob r)
      else if c = CHR ''?'' then map_option ((#) AnyChar) (parseGlob r)
      else if c = BSL then (case r of [] \<Rightarrow> None | d # r1 \<Rightarrow> map_option ((#) (Lit d)) (parseGlob r1))
      else if c = CHR ''['' then
        (let negated = (r \<noteq> [] \<and> hd r = CHR ''^'');
             r1 = (if negated then tl r else r)
         in case parseRanges [] r1 of
              None \<Rightarrow> None
            | Some (ranges, r2) \<Rightarrow> map_option ((#) (Class negated ranges)) (parseGlob r2))
      else map_option ((#) (Lit c)) (parseGlob r))"
  by pat_completeness auto
termination
proof (relation "measure length", goal_cases)
  have shorter: "length t < length s" if "getEsc s = Some (x, t)" for s x t
    using that by (cases s) (auto split: if_splits list.splits)
  have rest: "parseRanges acc s = Some (rs, t) \<Longrightarrow> length t < length s" for acc s rs t
  proof (induction acc s rule: parseRanges.induct)
    case (1 acc chunk)
    show ?case
    proof (cases "chunk \<noteq> [] \<and> hd chunk = CHR '']'' \<and> acc \<noteq> []")
      case True
      then show ?thesis using "1.prems" by (subst (asm) parseRanges.simps) auto
    next
      case False
      then obtain lo chunk1 where e: "getEsc chunk = Some (lo, chunk1)"
        using "1.prems" by (subst (asm) parseRanges.simps) (auto split: option.splits)
      have l1: "length chunk1 < length chunk" using shorter[OF e] .
      show ?thesis
      proof (cases "hd chunk1 = CHR ''-''")
        case dash: True
        then obtain hi chunk2 where e2: "getEsc (tl chunk1) = Some (hi, chunk2)"
          using "1.prems" False e by (subst (asm) parseRanges.simps) (auto split: option.splits)
        have "parseRanges (acc @ [(lo, hi)]) chunk2 = Some (rs, t)"
          using "1.prems" False e dash e2 by (subst (asm) parseRanges.simps) simp
        then have "length t < length chunk2"
          using "1.IH"(1)[OF False e refl dash e2 refl] by simp
        moreover have "length chunk2 < length (tl chunk1)" using shorter[OF e2] .
        ultimately show ?thesis using l1 by simp
      next
        case nodash: False
        have "parseRanges (acc @ [(lo, lo)]) chunk1 = Some (rs, t)"
          using "1.prems" False e nodash by (subst (asm) parseRanges.simps) simp
        then have "length t < length chunk1"
          using "1.IH"(2)[OF False e refl nodash] by simp
        then show ?thesis using l1 by simp
      qed
    qed
  qed
  {
    case 1
    show ?case by simp
  next
    case (2 c r)
    show ?case by simp
  next
    case (3 c r)
    show ?case by simp
  next
    case (4 c r d r1)
    then show ?case by simp
  next
    case (5 c r negated r1 x2 ranges r2)
    have "length r2 < length r1" using rest[of "[]" r1 ranges r2] 5 by simp
    moreover have "length r1 \<le> length r" using 5 by (auto split: if_splits)
    ultimately show ?case by simp
  next
    case (6 c r)
    show ?case by simp
  }
qed

definition inRange :: "char \<Rightarrow> char \<times> char \<Rightarrow> bool" where
  "inRange c lohi = ((of_char (fst lohi) :: nat) \<le> of_char c \<and> (of_char c :: nat) \<le> of_char (snd lohi))"

fun matchGlob :: "glob list \<Rightarrow> string \<Rightarrow> bool" where
  "matchGlob [] name = (name = [])"
| "matchGlob (Star # ts) [] = matchGlob ts []"
| "matchGlob (Star # ts) (c # r) = (matchGlob ts (c # r) \<or> (c \<noteq> CHR ''/'' \<and> matchGlob (Star # ts) r))"
| "matchGlob (AnyChar # ts) [] = False"
| "matchGlob (AnyChar # ts) (c # r) = (c \<noteq> CHR ''/'' \<and> matchGlob ts r)"
| "matchGlob (Lit x # ts) [] = False"
| "matchGlob (Lit x # ts) (c # r) = (c = x \<and> matchGlob ts r)"
| "matchGlob (Class negated ranges # ts) [] = False"
| "matchGlob (Class negated ranges # ts) (c # r) =
     ((list_ex (inRange c) ranges \<noteq> negated) \<and> matchGlob ts r)"

definition globMatch :: "string \<Rightarrow> string \<Rightarrow> error + bool" where
  "globMatch pattern name =
     (case parseGlob pattern of
        None \<Rightarrow> Inl ''syntax error in pattern''
      | Some ts \<Rightarrow> Inr (matchGlob ts name))"

definition joinPath :: "string \<Rightarrow> string \<Rightarrow> string" where
  "joinPath a b =
     (if a = [] then b else if b = [] then a
      else rev (dropWhile isSlash (rev a)) @ ''/'' @ dropWhile isSlash b)"

definition parseURL :: "string \<Rightarrow> error + URL" where
  "parseURL rawURL =
     (let scheme = takeWhile (\<lambda>c. c \<noteq> CHR '':'') rawURL;
          rest = drop (length scheme) rawURL
      in if \<not> HasPrefix rest ''://'' then Inl ''parse: missing protocol scheme''
         else
           (let hostpath = drop 3 rest
            in Inr \<lparr>Scheme = scheme, Host = takeWhile (\<lambda>c. \<not> isSlash c) hostpath,
                    Path = dropWhile (\<lambda>c. \<not> isSlash c) hostpath\<rparr>))"

definition urlString :: "URL \<Rightarrow> string" where
  "urlString u =
     Scheme u @ ''://'' @ Host u
       @ (if URL.Path u \<noteq> [] \<and> hd (URL.Path u) \<noteq> CHR ''/'' \<and> Host u \<noteq> [] then ''/'' else [])
       @ URL.Path u"

definition pipFactory :: "string \<Rightarrow> bool \<Rightarrow> error + PythonLookup" where
  "pipFactory language verbose =
     (if language = ''pip'' then Inr (NewPythonLookup verbose)
      else Inl (''unsupported language: '' @ language))"

definition pipPlatform ::
  "network \<Rightarrow> (string \<Rightarrow> string \<Rightarrow> string \<Rightarrow> error + Blob) \<Rightarrow> PythonLookup platform" where
  "pipPlatform net api =
     \<lparr>GetResolverForLanguage = (\<lambda>language. pipFactory language False),
      GetResolverForLanguageWithVerbose = pipFactory,
      ReadPackagesFromFile = PythonLookup_ReadPackagesFromFile,
      PackagesNotInPublic = PythonLookup_PackagesNotInPublic net,
      Match = globMatch,
      Join = joinPath,
      Parse = parseURL,
      String = urlString,
      NewRequest = (\<lambda>url. None),
      CreateTemp = (\<lambda>pattern w. Inr ''/tmp/confused-0001.tmp''),
      web = net,
      GetBlob = api\<rparr>"

text \<open>The base64 text that the blob API of GitHub puts in \<^verbatim>\<open>content\<close>.\<close>

definition b64digit :: "nat \<Rightarrow> char" where
  "b64digit n = (''ABCDEFGHIJKLMNOPQRSTUVWXYZabcdefghijklmnopqrstuvwxyz0123456789+/'') ! n"

fun base64 :: "string \<Rightarrow> string" where
  "base64 [] = []"
| "base64 [a] =
     (let x = (of_char a :: nat) in [b64digit (x div 4), b64digit ((x mod 4) * 16), CHR ''='', CHR ''=''])"
| "base64 [a, b] =
     (let x = (of_char a :: nat); y = (of_char b :: nat)
      in [b64digit (x div 4), b64digit ((x mod 4) * 16 + y div 16), b64digit ((y mod 16) * 4), CHR ''=''])"
| "base64 (a # b # c # r) =
     (let x = (of_char a :: nat); y = (of_char b :: nat); z = (of_char c :: nat)
      in [b64digit (x div 4), b64digit ((x mod 4) * 16 + y div 16),
          b64digit ((y mod 16) * 4 + z div 64), b64digit (z mod 64)] @ base64 r)"

section \<open>Vocabulary of the properties\<close>

subsection \<open>The request of a check\<close>

text \<open>
  The URL that a check asks for, and the world after the check has printed its line (when
  verbose) and sent its request.
\<close>

definition pypi :: "string \<Rightarrow> string" where
  "pypi pkgname = ''https://pypi.org/project/'' @ pkgname @ ''/''"

definition pip_asked :: "PythonLookup \<Rightarrow> string \<Rightarrow> world \<Rightarrow> world" where
  "pip_asked p pkgname w =
     emit (Get (pypi pkgname)) (emit_if (PythonLookup.Verbose p) (checkingLine (pypi pkgname) '' : '') w)"

definition packagist :: "string \<Rightarrow> string" where
  "packagist pkgname = ''https://packagist.org/packages/'' @ pkgname @ ''.json''"

definition composer_asked :: "ComposerLookup \<Rightarrow> string \<Rightarrow> world \<Rightarrow> world" where
  "composer_asked c pkgname w =
     emit (Get (packagist pkgname))
       (emit_if (ComposerLookup.Verbose c) (checkingLine (packagist pkgname) '' : '') w)"

definition mavenRepo :: "MVNPackage \<Rightarrow> string" where
  "mavenRepo pkg = ''https://repo1.maven.org/maven2/'' @ dotsToSlashes (Group pkg) @ ''/''"

definition mvn_asked :: "MVNLookup \<Rightarrow> MVNPackage \<Rightarrow> world \<Rightarrow> world" where
  "mvn_asked n pkg w =
     emit (Get (mavenRepo pkg)) (emit_if (MVNLookup.Verbose n) (checkingLine (mavenRepo pkg) '' '') w)"

text \<open>A composer version that is a reference to a file, a URL or a git repository.\<close>

definition pinned :: "string \<Rightarrow> bool" where
  "pinned pkgversion = (localReference pkgversion \<or> urlReference pkgversion \<or> gitReference pkgversion)"

subsection \<open>The pip parser in the words of the specification\<close>

text \<open>
  The specification describes the pip parser in steps. The lines of the file are read
  without the white space around them. A line that ends with a backslash is joined, the
  backslash removed, with the line that follows it, and again while the joined line ends
  with a backslash. The logical lines are the joined lines that do not begin with \<^verbatim>\<open>#\<close>.
  The identifier of a logical line: \<open>spec_leadingToken\<close> is the leading token of a line
  split at its first delimiter, as the specification has it; \<open>packageName\<close> takes it after
  the delimiters at the start of the line, and is none for a line without anything but
  delimiters.
\<close>

fun joinContinued :: "string list \<Rightarrow> string list" where
  "joinContinued [] = []"
| "joinContinued [l] = [if HasSuffix l [BSL] then butlast l else l]"
| "joinContinued (l # m # ls) =
     (if HasSuffix l [BSL] then joinContinued ((butlast l @ m) # ls)
      else l # joinContinued (m # ls))"

definition logicalLines :: "string \<Rightarrow> string list" where
  "logicalLines rawfile =
     filter (\<lambda>l. \<not> HasPrefix l ''#'') (joinContinued (map TrimSpace (Split_NL rawfile)))"

definition spec_leadingToken :: "string \<Rightarrow> string" where
  "spec_leadingToken line = takeWhile (\<lambda>c. \<not> pipSplit c) line"

definition packageName :: "string \<Rightarrow> string option" where
  "packageName line =
     (if list_all pipSplit line then None
      else Some (TrimSpace (spec_leadingToken (dropWhile pipSplit line))))"

text \<open>
  The continuations of a file are closed when every line that ends with a backslash is
  not a comment and is followed by a line that is neither empty nor a comment; the last
  line of the file then does not end with a backslash.
\<close>

fun continuationsClosed :: "string list \<Rightarrow> bool" where
  "continuationsClosed [] = True"
| "continuationsClosed [l] = (\<not> HasSuffix l [BSL])"
| "continuationsClosed (l # m # ls) =
     ((HasSuffix l [BSL] \<longrightarrow> \<not> HasPrefix l ''#'' \<and> m \<noteq> [] \<and> \<not> HasPrefix m ''#'')
      \<and> continuationsClosed (m # ls))"

subsection \<open>Concrete inputs\<close>

text \<open>Worlds: nothing on disk, or one file; the trace is empty.\<close>

definition blank :: world where
  "blank = \<lparr>files = Map.empty, trace = []\<rparr>"

definition diskOf :: "string \<Rightarrow> string \<Rightarrow> world" where
  "diskOf filename rawfile = \<lparr>files = [filename \<mapsto> rawfile], trace = []\<rparr>"

text \<open>Registries that give the same answer to every request.\<close>

definition always429 :: network where
  "always429 url k = Response ''429 Too Many Requests'' 429 []"

definition always404 :: network where
  "always404 url k = Response ''404 Not Found'' 404 []"

definition unreachable :: network where
  "unreachable url k = Failed ''dial tcp: lookup failed: no such host''"

text \<open>Maven: no body says that all versions are unpublished; two packages; a truncated POM.\<close>

definition never :: "string \<Rightarrow> bool" where
  "never body = False"

definition orphan :: MVNPackage where
  "orphan = \<lparr>Group = [], Artifact = ''internal-lib'', Version = ''1.0''\<rparr>"

definition billing :: MVNPackage where
  "billing = \<lparr>Group = ''com.acme.internal'', Artifact = ''billing'', Version = ''2.1''\<rparr>"

definition truncatedPom :: string where
  "truncatedPom = ''<project><dependencies><dependency><groupId>com.acme</groupId><artif''"

definition xmlOf :: "string \<Rightarrow> error + MavenProject" where
  "xmlOf rawfile =
     (if rawfile = truncatedPom then Inl ''XML syntax error on line 1: unexpected EOF''
      else Inr \<lparr>Dependencies = [], Build = \<lparr>Plugins = []\<rparr>, Profiles = []\<rparr>)"

text \<open>
  Scenario B of the specification: the \<^verbatim>\<open>composer.json\<close>, what \<^verbatim>\<open>json.Unmarshal\<close> makes of it
  (with the two keys of the map visited in either order), and a Packagist that knows
  \<^verbatim>\<open>monolog/monolog\<close> only.
\<close>

definition diskB :: world where
  \<open>diskB = \<lparr>files = [''composer.json'' \<mapsto>
       ''{"require":{"monolog/monolog":"^3.0","internal/php-package":"file:./local"}}''],
     trace = []\<rparr>\<close>

definition decodeB :: "string \<Rightarrow> error option \<times> ComposerJSON" where
  "decodeB rawfile =
     (None, \<lparr>Require = [(''monolog/monolog'', ''^3.0''), (''internal/php-package'', ''file:./local'')],
             RequireDev = []\<rparr>)"

definition decodeB' :: "string \<Rightarrow> error option \<times> ComposerJSON" where
  "decodeB' rawfile =
     (None, \<lparr>Require = [(''internal/php-package'', ''file:./local''), (''monolog/monolog'', ''^3.0'')],
             RequireDev = []\<rparr>)"

definition packagistB :: network where
  "packagistB url k =
     (if url = packagist ''monolog/monolog'' then Response ''200 OK'' 200 []
      else Response ''404 Not Found'' 404 [])"

text \<open>
  The scan flows: a network where \<^verbatim>\<open>example.com\<close> serves a requirements file with the
  package \<^verbatim>\<open>internal-billing\<close> and PyPI knows \<^verbatim>\<open>requests\<close> only; a GitHub without blobs and
  one whose blob is the requirements file with the line \<^verbatim>\<open>requests\<close>; the flags of two web
  scans; and the fields of a result that the examples look at.
\<close>

definition pypiC :: network where
  "pypiC url k =
     (if url = ''https://example.com/requirements.txt'' then Response ''200 OK'' 200 (''internal-billing'' @ [NL])
      else if url = pypi ''requests'' then Response ''200 OK'' 200 []
      else Response ''404 Not Found'' 404 [])"

definition noApi :: "string \<Rightarrow> string \<Rightarrow> string \<Rightarrow> error + Blob" where
  "noApi owner repo sha = Inl ''404 Not Found''"

definition blobApi :: "string \<Rightarrow> string \<Rightarrow> string \<Rightarrow> error + Blob" where
  "blobApi owner repo sha =
     Inr \<lparr>Content = Some (base64 (''requests'' @ [NL]) @ [NL]), Encoding = Some ''base64''\<rparr>"

definition requirementsEntry :: TreeEntry where
  "requirementsEntry = \<lparr>SHA = ''3b18e512'', Path = ''requirements.txt'', Size = 9\<rparr>"

definition webFlagsC :: "int \<Rightarrow> webFlags" where
  "webFlagsC maxDepth =
     \<lparr>flag_languages = [''pip''], flag_safe_spaces = [''internal-*''], flag_deep = True,
      flag_wordlist = [], flag_max_depth = maxDepth, flag_workers = 10\<rparr>"

definition webFlagsS :: webFlags where
  "webFlagsS =
     \<lparr>flag_languages = [''pip''], flag_safe_spaces = [''internal-*''], flag_deep = False,
      flag_wordlist = [], flag_max_depth = 3, flag_workers = 10\<rparr>"

definition summary :: "ScanResult \<Rightarrow> string \<times> string list \<times> string list \<times> int" where
  "summary result = (Target result, Vulnerable result, Safe result, Total result)"

section \<open>Properties\<close>

subsection \<open>Traces\<close>

declare ComposerLookup_isAvailableInPublic.simps [simp del]

declare MVNLookup_isAvailableInPublic.simps [simp del]

lemma urls_append: "urls (es @ fs) = urls es @ urls fs"
  by (induction es rule: urls.induct) auto

lemma naps_append: "naps (es @ fs) = naps es @ naps fs"
  by (induction es rule: naps.induct) auto

lemma lines_quiet:
  "urls [checkingLine u s] = []" "naps [checkingLine u s] = []"
  "urls [requestError u e] = []" "naps [requestError u e] = []"
  "urls [statusLine st] = []" "naps [statusLine st] = []"
  "urls [retriesExhausted p] = []" "naps [retriesExhausted p] = []"
  "urls [allUnpublished p] = []" "naps [allUnpublished p] = []"
  "urls [throttling] = []" "naps [throttling] = []"
  by (simp_all add: checkingLine_def requestError_def statusLine_def retriesExhausted_def
        allUnpublished_def throttling_def)

lemma trace_emit: "trace (emit e w) = trace w @ [e]"
  by (simp add: emit_def)

lemma files_emit: "files (emit e w) = files w"
  by (simp add: emit_def)

lemma files_emit_if: "files (emit_if b e w) = files w"
  by (simp add: emit_if_def emit_def)

lemma urls_emit: "urls (trace (emit e w)) = urls (trace w) @ urls [e]"
  by (simp add: emit_def urls_append)

lemma naps_emit: "naps (trace (emit e w)) = naps (trace w) @ naps [e]"
  by (simp add: emit_def naps_append)

lemma urls_emit_if: "urls (trace (emit_if b e w)) = urls (trace w) @ (if b then urls [e] else [])"
  by (simp add: emit_if_def urls_emit)

lemma naps_emit_if: "naps (trace (emit_if b e w)) = naps (trace w) @ (if b then naps [e] else [])"
  by (simp add: emit_if_def naps_emit)

lemmas effects = urls_emit naps_emit urls_emit_if naps_emit_if lines_quiet

lemma sent_emit_if_quiet: "urls [e] = [] \<Longrightarrow> sent (emit_if b e w) = sent w"
  by (simp add: sent_def urls_emit_if)

subsection \<open>One round of the pip check\<close>

lemma pip_asked_effects:
  "urls (trace (pip_asked l p w)) = urls (trace w) @ [pypi p]"
  "naps (trace (pip_asked l p w)) = naps (trace w)"
  by (simp_all add: pip_asked_def effects)

lemma pip_failed:
  assumes "net (pypi pkgname) (sent w) = Failed err"
  shows "PythonLookup_isAvailableInPublic net p pkgname w =
     (False, emit (requestError (pypi pkgname) err) (pip_asked p pkgname w))"
  using assms
  by (simp add: PythonLookup_isAvailableInPublic_def Let_def http_Get_def sent_emit_if_quiet
        lines_quiet pypi_def pip_asked_def)

lemma pip_response:
  assumes "net (pypi pkgname) (sent w) = Response status code body"
  shows "PythonLookup_isAvailableInPublic net p pkgname w =
     (code = 200, emit_if (PythonLookup.Verbose p) (statusLine status) (pip_asked p pkgname w))"
  using assms
  by (simp add: PythonLookup_isAvailableInPublic_def Let_def http_Get_def sent_emit_if_quiet
        lines_quiet pypi_def pip_asked_def)

lemma pip_effects:
  "urls (trace (snd (PythonLookup_isAvailableInPublic net l p w))) = urls (trace w) @ [pypi p]"
  "naps (trace (snd (PythonLookup_isAvailableInPublic net l p w))) = naps (trace w)"
  by (cases "net (pypi p) (sent w)"; simp add: pip_failed pip_response effects pip_asked_effects)+

subsection \<open>One round of the composer check\<close>

lemma composer_asked_effects:
  "urls (trace (composer_asked c p w)) = urls (trace w) @ [packagist p]"
  "naps (trace (composer_asked c p w)) = naps (trace w)"
  by (simp_all add: composer_asked_def effects)

lemma composer_exhausted:
  "retry > 3 \<Longrightarrow> ComposerLookup_isAvailableInPublic net c pkgname retry w =
     (False, emit (retriesExhausted pkgname) w)"
  by (subst ComposerLookup_isAvailableInPublic.simps) simp

lemma composer_failed:
  assumes "retry \<le> 3" "net (packagist pkgname) (sent w) = Failed err"
  shows "ComposerLookup_isAvailableInPublic net c pkgname retry w =
     (False, emit (requestError (packagist pkgname) err) (composer_asked c pkgname w))"
  using assms
  by (subst ComposerLookup_isAvailableInPublic.simps)
     (simp add: Let_def http_Get_def sent_emit_if_quiet lines_quiet packagist_def composer_asked_def)

lemma composer_response:
  assumes "retry \<le> 3" "net (packagist pkgname) (sent w) = Response status code body"
  shows "ComposerLookup_isAvailableInPublic net c pkgname retry w =
     (let w3 = emit_if (ComposerLookup.Verbose c) (statusLine status) (composer_asked c pkgname w)
      in if code = 200 then (True, w3)
         else if code = 429 then
           ComposerLookup_isAvailableInPublic net c pkgname (retry + 1) (emit (Sleep 10) (emit throttling w3))
         else (False, w3))"
  using assms
  by (subst ComposerLookup_isAvailableInPublic.simps)
     (simp add: Let_def http_Get_def sent_emit_if_quiet lines_quiet packagist_def composer_asked_def)

lemma composer_effects:
  "\<exists>k j. urls (trace (snd (ComposerLookup_isAvailableInPublic net c p retry w)))
            = urls (trace w) @ replicate k (packagist p)
       \<and> naps (trace (snd (ComposerLookup_isAvailableInPublic net c p retry w)))
            = naps (trace w) @ replicate j 10
       \<and> j \<le> k \<and> k \<le> Suc j \<and> k \<le> nat (4 - retry)"
proof (induction "nat (4 - retry)" arbitrary: retry w)
  case 0
  then have "retry > 3" by simp
  then show ?case
    by (simp add: composer_exhausted effects)
next
  case (Suc m)
  then have le: "retry \<le> 3" by simp
  let ?url = "packagist p"
  let ?r = "ComposerLookup_isAvailableInPublic net c p retry w"
  show ?case
  proof (cases "net ?url (sent w)")
    case (Failed err)
    have "urls (trace (snd ?r)) = urls (trace w) @ replicate 1 ?url"
      and "naps (trace (snd ?r)) = naps (trace w) @ replicate 0 10"
      by (simp_all add: composer_failed[where net=net and w=w, OF le Failed] effects composer_asked_effects)
    then show ?thesis using le by (intro exI[of _ 1] exI[of _ 0]) simp
  next
    case (Response status code body)
    let ?w3 = "emit_if (ComposerLookup.Verbose c) (statusLine status) (composer_asked c p w)"
    let ?w4 = "emit (Sleep 10) (emit throttling ?w3)"
    have u3: "urls (trace ?w3) = urls (trace w) @ [?url]" and n3: "naps (trace ?w3) = naps (trace w)"
      by (simp_all add: effects composer_asked_effects)
    have u4: "urls (trace ?w4) = urls (trace w) @ [?url]" and n4: "naps (trace ?w4) = naps (trace w) @ [10]"
      by (simp_all add: effects composer_asked_effects)
    show ?thesis
    proof (cases "code = 429")
      case True
      have m: "m = nat (4 - (retry + 1))" using Suc.hyps(2) by simp
      from Suc.hyps(1)[OF m, of ?w4] obtain k j where
        kj: "urls (trace (snd (ComposerLookup_isAvailableInPublic net c p (retry + 1) ?w4)))
               = urls (trace ?w4) @ replicate k ?url"
            "naps (trace (snd (ComposerLookup_isAvailableInPublic net c p (retry + 1) ?w4)))
               = naps (trace ?w4) @ replicate j 10"
            "j \<le> k" "k \<le> Suc j" "k \<le> nat (4 - (retry + 1))"
        by blast
      have eq: "?r = ComposerLookup_isAvailableInPublic net c p (retry + 1) ?w4"
        using True by (simp add: composer_response[where net=net and w=w, OF le Response] Let_def)
      have "urls (trace (snd ?r)) = urls (trace w) @ replicate (Suc k) ?url"
        unfolding eq kj(1) u4 by simp
      moreover have "naps (trace (snd ?r)) = naps (trace w) @ replicate (Suc j) 10"
        unfolding eq kj(2) n4 by simp
      ultimately show ?thesis using kj(3,4,5) le
        by (intro exI[of _ "Suc k"] exI[of _ "Suc j"]) simp
    next
      case False
      have "snd ?r = ?w3"
        using False by (simp add: composer_response[where net=net and w=w, OF le Response] Let_def)
      then have "urls (trace (snd ?r)) = urls (trace w) @ replicate 1 ?url"
        and "naps (trace (snd ?r)) = naps (trace w) @ replicate 0 10"
        using u3 n3 by simp_all
      then show ?thesis using le by (intro exI[of _ 1] exI[of _ 0]) simp
    qed
  qed
qed

lemma composer_all_429:
  assumes "\<forall>k. \<exists>s b. net (packagist p) k = Response s 429 b"
  shows "fst (ComposerLookup_isAvailableInPublic net c p retry w) = False
       \<and> urls (trace (snd (ComposerLookup_isAvailableInPublic net c p retry w)))
            = urls (trace w) @ replicate (nat (4 - retry)) (packagist p)
       \<and> naps (trace (snd (ComposerLookup_isAvailableInPublic net c p retry w)))
            = naps (trace w) @ replicate (nat (4 - retry)) 10
       \<and> last (trace (snd (ComposerLookup_isAvailableInPublic net c p retry w))) = retriesExhausted p"
proof (induction "nat (4 - retry)" arbitrary: retry w)
  case 0
  then have "retry > 3" by simp
  then show ?case
    by (simp add: composer_exhausted effects trace_emit urls_append naps_append)
next
  case (Suc m)
  then have le: "retry \<le> 3" by simp
  let ?url = "packagist p"
  obtain status body where r: "net ?url (sent w) = Response status 429 body"
    using assms by blast
  let ?w3 = "emit_if (ComposerLookup.Verbose c) (statusLine status) (composer_asked c p w)"
  let ?w4 = "emit (Sleep 10) (emit throttling ?w3)"
  have u4: "urls (trace ?w4) = urls (trace w) @ [?url]" and n4: "naps (trace ?w4) = naps (trace w) @ [10]"
    by (simp_all add: effects composer_asked_effects)
  have m: "m = nat (4 - (retry + 1))" using Suc.hyps(2) by simp
  have eq: "ComposerLookup_isAvailableInPublic net c p retry w
      = ComposerLookup_isAvailableInPublic net c p (retry + 1) ?w4"
    by (simp add: composer_response[where net=net and w=w, OF le r] Let_def)
  have s: "nat (4 - retry) = Suc (nat (4 - (retry + 1)))" using le by simp
  show ?case
    unfolding eq s using Suc.hyps(1)[OF m, of ?w4]
    unfolding u4 n4 by (simp add: replicate_append_same)
qed

lemma composer_once:
  assumes "retry \<le> 3" "\<forall>s b. net (packagist p) (sent w) \<noteq> Response s 429 b"
  shows "urls (trace (snd (ComposerLookup_isAvailableInPublic net c p retry w))) = urls (trace w) @ [packagist p]"
    and "naps (trace (snd (ComposerLookup_isAvailableInPublic net c p retry w))) = naps (trace w)"
proof -
  show "urls (trace (snd (ComposerLookup_isAvailableInPublic net c p retry w))) = urls (trace w) @ [packagist p]"
  proof (cases "net (packagist p) (sent w)")
    case (Failed err)
    then show ?thesis using assms(1) by (simp add: composer_failed effects composer_asked_effects)
  next
    case (Response s code b)
    then have "code \<noteq> 429" using assms(2) by auto
    then show ?thesis using assms(1) Response
      by (simp add: composer_response Let_def effects composer_asked_effects)
  qed
  show "naps (trace (snd (ComposerLookup_isAvailableInPublic net c p retry w))) = naps (trace w)"
  proof (cases "net (packagist p) (sent w)")
    case (Failed err)
    then show ?thesis using assms(1) by (simp add: composer_failed effects composer_asked_effects)
  next
    case (Response s code b)
    then have "code \<noteq> 429" using assms(2) by auto
    then show ?thesis using assms(1) Response
      by (simp add: composer_response Let_def effects composer_asked_effects)
  qed
qed

subsection \<open>One round of the maven check\<close>

lemma mvn_asked_effects:
  "urls (trace (mvn_asked n p w)) = urls (trace w) @ [mavenRepo p]"
  "naps (trace (mvn_asked n p w)) = naps (trace w)"
  by (simp_all add: mvn_asked_def effects)

lemma mvn_exhausted:
  "retry > 3 \<Longrightarrow> MVNLookup_isAvailableInPublic net unpublished n pkg retry w =
     (False, emit (retriesExhausted (Group pkg)) w)"
  by (subst MVNLookup_isAvailableInPublic.simps) simp

lemma mvn_no_group:
  "retry \<le> 3 \<Longrightarrow> Group pkg = [] \<Longrightarrow>
     MVNLookup_isAvailableInPublic net unpublished n pkg retry w = (True, w)"
  by (subst MVNLookup_isAvailableInPublic.simps) simp

lemma mvn_failed:
  assumes "retry \<le> 3" "Group pkg \<noteq> []" "net (mavenRepo pkg) (sent w) = Failed err"
  shows "MVNLookup_isAvailableInPublic net unpublished n pkg retry w =
     (False, emit (requestError (mavenRepo pkg) err) (mvn_asked n pkg w))"
  using assms
  by (subst MVNLookup_isAvailableInPublic.simps)
     (simp add: Let_def http_Get_def sent_emit_if_quiet lines_quiet mavenRepo_def mvn_asked_def)

lemma mvn_response:
  assumes "retry \<le> 3" "Group pkg \<noteq> []" "net (mavenRepo pkg) (sent w) = Response status code body"
  shows "MVNLookup_isAvailableInPublic net unpublished n pkg retry w =
     (let w3 = emit_if (MVNLookup.Verbose n) (statusLine status) (mvn_asked n pkg w)
      in if code = 200 then
           (if unpublished body then (False, emit_if (MVNLookup.Verbose n) (allUnpublished (Group pkg)) w3)
            else (True, w3))
         else if code = 429 then
           MVNLookup_isAvailableInPublic net unpublished n pkg (retry + 1) (emit (Sleep 10) (emit throttling w3))
         else (False, w3))"
  using assms
  by (subst MVNLookup_isAvailableInPublic.simps)
     (simp add: Let_def http_Get_def sent_emit_if_quiet lines_quiet mavenRepo_def mvn_asked_def)

lemma mvn_effects:
  "\<exists>k j. urls (trace (snd (MVNLookup_isAvailableInPublic net un n p retry w)))
            = urls (trace w) @ replicate k (mavenRepo p)
       \<and> naps (trace (snd (MVNLookup_isAvailableInPublic net un n p retry w)))
            = naps (trace w) @ replicate j 10
       \<and> j \<le> k \<and> k \<le> Suc j \<and> k \<le> nat (4 - retry)"
proof (induction "nat (4 - retry)" arbitrary: retry w)
  case 0
  then have "retry > 3" by simp
  then show ?case
    by (simp add: mvn_exhausted effects)
next
  case (Suc m)
  then have le: "retry \<le> 3" by simp
  let ?url = "mavenRepo p"
  let ?r = "MVNLookup_isAvailableInPublic net un n p retry w"
  show ?case
  proof (cases "Group p = []")
    case True
    then show ?thesis using le by (simp add: mvn_no_group)
  next
    case g: False
    show ?thesis
    proof (cases "net ?url (sent w)")
      case (Failed err)
      have "urls (trace (snd ?r)) = urls (trace w) @ replicate 1 ?url"
        and "naps (trace (snd ?r)) = naps (trace w) @ replicate 0 10"
        by (simp_all add: mvn_failed[where net=net and w=w, OF le g Failed] effects mvn_asked_effects)
      then show ?thesis using le by (intro exI[of _ 1] exI[of _ 0]) simp
    next
      case (Response status code body)
      let ?w3 = "emit_if (MVNLookup.Verbose n) (statusLine status) (mvn_asked n p w)"
      let ?w4 = "emit (Sleep 10) (emit throttling ?w3)"
      have u3: "urls (trace ?w3) = urls (trace w) @ [?url]" and n3: "naps (trace ?w3) = naps (trace w)"
        by (simp_all add: effects mvn_asked_effects)
      have u4: "urls (trace ?w4) = urls (trace w) @ [?url]" and n4: "naps (trace ?w4) = naps (trace w) @ [10]"
        by (simp_all add: effects mvn_asked_effects)
      show ?thesis
      proof (cases "code = 429")
        case True
        have m: "m = nat (4 - (retry + 1))" using Suc.hyps(2) by simp
        from Suc.hyps(1)[OF m, of ?w4] obtain k j where
          kj: "urls (trace (snd (MVNLookup_isAvailableInPublic net un n p (retry + 1) ?w4)))
                 = urls (trace ?w4) @ replicate k ?url"
              "naps (trace (snd (MVNLookup_isAvailableInPublic net un n p (retry + 1) ?w4)))
                 = naps (trace ?w4) @ replicate j 10"
              "j \<le> k" "k \<le> Suc j" "k \<le> nat (4 - (retry + 1))"
          by blast
        have eq: "?r = MVNLookup_isAvailableInPublic net un n p (retry + 1) ?w4"
          using True by (simp add: mvn_response[where net=net and w=w, OF le g Response] Let_def)
        have "urls (trace (snd ?r)) = urls (trace w) @ replicate (Suc k) ?url"
          unfolding eq kj(1) u4 by simp
        moreover have "naps (trace (snd ?r)) = naps (trace w) @ replicate (Suc j) 10"
          unfolding eq kj(2) n4 by simp
        ultimately show ?thesis using kj(3,4,5) le
          by (intro exI[of _ "Suc k"] exI[of _ "Suc j"]) simp
      next
        case False
        have "urls (trace (snd ?r)) = urls (trace ?w3)" "naps (trace (snd ?r)) = naps (trace ?w3)"
          using False
          by (simp_all add: mvn_response[where net=net and w=w, OF le g Response] Let_def effects)
        then have "urls (trace (snd ?r)) = urls (trace w) @ replicate 1 ?url"
          and "naps (trace (snd ?r)) = naps (trace w) @ replicate 0 10"
          using u3 n3 by simp_all
        then show ?thesis using le by (intro exI[of _ 1] exI[of _ 0]) simp
      qed
    qed
  qed
qed

lemma mvn_all_429:
  assumes "\<forall>k. \<exists>s b. net (mavenRepo p) k = Response s 429 b" and g: "Group p \<noteq> []"
  shows "fst (MVNLookup_isAvailableInPublic net un n p retry w) = False
       \<and> urls (trace (snd (MVNLookup_isAvailableInPublic net un n p retry w)))
            = urls (trace w) @ replicate (nat (4 - retry)) (mavenRepo p)
       \<and> naps (trace (snd (MVNLookup_isAvailableInPublic net un n p retry w)))
            = naps (trace w) @ replicate (nat (4 - retry)) 10
       \<and> last (trace (snd (MVNLookup_isAvailableInPublic net un n p retry w))) = retriesExhausted (Group p)"
proof (induction "nat (4 - retry)" arbitrary: retry w)
  case 0
  then have "retry > 3" by simp
  then show ?case
    by (simp add: mvn_exhausted effects trace_emit urls_append naps_append)
next
  case (Suc m)
  then have le: "retry \<le> 3" by simp
  let ?url = "mavenRepo p"
  obtain status body where r: "net ?url (sent w) = Response status 429 body"
    using assms by blast
  let ?w3 = "emit_if (MVNLookup.Verbose n) (statusLine status) (mvn_asked n p w)"
  let ?w4 = "emit (Sleep 10) (emit throttling ?w3)"
  have u4: "urls (trace ?w4) = urls (trace w) @ [?url]" and n4: "naps (trace ?w4) = naps (trace w) @ [10]"
    by (simp_all add: effects mvn_asked_effects)
  have m: "m = nat (4 - (retry + 1))" using Suc.hyps(2) by simp
  have eq: "MVNLookup_isAvailableInPublic net un n p retry w
      = MVNLookup_isAvailableInPublic net un n p (retry + 1) ?w4"
    by (simp add: mvn_response[where net=net and w=w, OF le g r] Let_def)
  have s: "nat (4 - retry) = Suc (nat (4 - (retry + 1)))" using le by simp
  show ?case
    unfolding eq s using Suc.hyps(1)[OF m, of ?w4]
    unfolding u4 n4 by (simp add: replicate_append_same)
qed

lemma mvn_once:
  assumes "retry \<le> 3" "Group p \<noteq> []" "\<forall>s b. net (mavenRepo p) (sent w) \<noteq> Response s 429 b"
  shows "urls (trace (snd (MVNLookup_isAvailableInPublic net un n p retry w))) = urls (trace w) @ [mavenRepo p]"
    and "naps (trace (snd (MVNLookup_isAvailableInPublic net un n p retry w))) = naps (trace w)"
proof -
  show "urls (trace (snd (MVNLookup_isAvailableInPublic net un n p retry w))) = urls (trace w) @ [mavenRepo p]"
  proof (cases "net (mavenRepo p) (sent w)")
    case (Failed err)
    then show ?thesis using assms(1,2) by (simp add: mvn_failed effects mvn_asked_effects)
  next
    case (Response s code b)
    then have "code \<noteq> 429" using assms(3) by auto
    then show ?thesis using assms(1,2) Response
      by (simp add: mvn_response Let_def effects mvn_asked_effects)
  qed
  show "naps (trace (snd (MVNLookup_isAvailableInPublic net un n p retry w))) = naps (trace w)"
  proof (cases "net (mavenRepo p) (sent w)")
    case (Failed err)
    then show ?thesis using assms(1,2) by (simp add: mvn_failed effects mvn_asked_effects)
  next
    case (Response s code b)
    then have "code \<noteq> 429" using assms(3) by auto
    then show ?thesis using assms(1,2) Response
      by (simp add: mvn_response Let_def effects mvn_asked_effects)
  qed
qed

subsection \<open>The loops over the packages\<close>

lemma composer_loop_skips:
  "ComposerLookup_notavailLoop net c acc pkgs w =
   ComposerLookup_notavailLoop net c acc (filter (\<lambda>p. \<not> pinned (ComposerPackage.Version p)) pkgs) w"
  by (induction pkgs arbitrary: acc w) (simp_all add: Let_def pinned_def)

lemma composer_loop_names:
  "set (fst (ComposerLookup_notavailLoop net c acc pkgs w))
     \<subseteq> set acc \<union> Name ` {p \<in> set pkgs. \<not> pinned (ComposerPackage.Version p)}"
proof (induction pkgs arbitrary: acc w)
  case Nil
  show ?case by simp
next
  case (Cons p ps)
  show ?case
  proof (cases "pinned (ComposerPackage.Version p)")
    case True
    then show ?thesis using Cons.IH[of acc w] by (auto simp: pinned_def)
  next
    case False
    let ?r = "ComposerLookup_isAvailableInPublic net c (Name p) 0 w"
    have "ComposerLookup_notavailLoop net c acc (p # ps) w =
        ComposerLookup_notavailLoop net c (if \<not> fst ?r then acc @ [Name p] else acc) ps (snd ?r)"
      using False by (simp add: pinned_def Let_def)
    then show ?thesis
      using Cons.IH[of "if \<not> fst ?r then acc @ [Name p] else acc" "snd ?r"] False
      by (auto split: if_splits)
  qed
qed

lemma composer_loop_urls:
  "set (urls (trace (snd (ComposerLookup_notavailLoop net c acc pkgs w))))
     \<subseteq> set (urls (trace w)) \<union> (\<lambda>p. packagist (Name p)) ` {p \<in> set pkgs. \<not> pinned (ComposerPackage.Version p)}"
proof (induction pkgs arbitrary: acc w)
  case Nil
  show ?case by simp
next
  case (Cons p ps)
  show ?case
  proof (cases "pinned (ComposerPackage.Version p)")
    case True
    then show ?thesis using Cons.IH[of acc w] by (auto simp: pinned_def)
  next
    case False
    let ?r = "ComposerLookup_isAvailableInPublic net c (Name p) 0 w"
    obtain k j where u: "urls (trace (snd ?r)) = urls (trace w) @ replicate k (packagist (Name p))"
      using composer_effects[of net c "Name p" 0 w] by blast
    have "ComposerLookup_notavailLoop net c acc (p # ps) w =
        ComposerLookup_notavailLoop net c (if \<not> fst ?r then acc @ [Name p] else acc) ps (snd ?r)"
      using False by (simp add: pinned_def Let_def)
    then show ?thesis
      using Cons.IH[of "if \<not> fst ?r then acc @ [Name p] else acc" "snd ?r"] False u
      by (auto split: if_splits)
  qed
qed

lemma mvn_loop_skips:
  "MVNLookup_notavailLoop net un n acc pkgs w =
   MVNLookup_notavailLoop net un n acc (filter (\<lambda>p. Group p \<noteq> []) pkgs) w"
  by (induction pkgs arbitrary: acc w) (simp_all add: Let_def mvn_no_group)

lemma mvn_loop_names:
  "set (fst (MVNLookup_notavailLoop net un n acc pkgs w))
     \<subseteq> set acc \<union> (\<lambda>p. Group p @ ''/'' @ Artifact p) ` {p \<in> set pkgs. Group p \<noteq> []}"
proof (induction pkgs arbitrary: acc w)
  case Nil
  show ?case by simp
next
  case (Cons p ps)
  let ?r = "MVNLookup_isAvailableInPublic net un n p 0 w"
  show ?case
  proof (cases "Group p = []")
    case True
    then have "MVNLookup_notavailLoop net un n acc (p # ps) w = MVNLookup_notavailLoop net un n acc ps w"
      by (simp add: Let_def mvn_no_group)
    then show ?thesis using Cons.IH[of acc w] True by auto
  next
    case False
    then show ?thesis
      using Cons.IH[of "if \<not> fst ?r then acc @ [Group p @ ''/'' @ Artifact p] else acc" "snd ?r"]
      by (auto simp: Let_def split: if_splits)
  qed
qed

lemma prefix_lower:
  assumes "HasPrefix v p" "map lowerChar p = p"
  shows "HasPrefix (ToLower v) p"
proof -
  have "take (length p) (map lowerChar v) = map lowerChar (take (length p) v)"
    by (simp add: take_map)
  then show ?thesis using assms by (simp add: HasPrefix_def ToLower_def)
qed

lemma literal_prefixes_pinned:
  "HasPrefix v ''file:'' \<Longrightarrow> localReference v"
  "HasPrefix v ''http:'' \<Longrightarrow> urlReference v"
  "HasPrefix v ''https:'' \<Longrightarrow> urlReference v"
  "HasPrefix v ''git:'' \<Longrightarrow> gitReference v"
  "HasPrefix v ''git+ssh:'' \<Longrightarrow> gitReference v"
  "HasPrefix v ''git+http:'' \<Longrightarrow> gitReference v"
  "HasPrefix v ''git+https:'' \<Longrightarrow> gitReference v"
  by (simp_all add: localReference_def urlReference_def gitReference_def Let_def
        prefix_lower[where v=v] lowerChar_def)

subsection \<open>Fields and logical lines\<close>

lemma fieldsLoop_Some:
  "fieldsLoop f (Some w) s = (w @ takeWhile (\<lambda>c. \<not> f c) s) # fieldsLoop f None (dropWhile (\<lambda>c. \<not> f c) s)"
  by (induction s arbitrary: w) auto

lemma fieldsLoop_None:
  "fieldsLoop f None s = (case dropWhile f s of [] \<Rightarrow> [] | c # r \<Rightarrow> fieldsLoop f (Some [c]) r)"
  by (induction s) auto

lemma FieldsFunc_Nil: "dropWhile f s = [] \<Longrightarrow> FieldsFunc s f = []"
  unfolding FieldsFunc_def by (subst fieldsLoop_None) (simp only: list.case)

lemma FieldsFunc_Cons:
  assumes "dropWhile f s = c # r"
  shows "FieldsFunc s f = takeWhile (\<lambda>c. \<not> f c) (c # r) # FieldsFunc (dropWhile (\<lambda>c. \<not> f c) r) f"
proof -
  have nf: "\<not> f c" using hd_dropWhile[of f s] assms by auto
  have "fieldsLoop f None s = fieldsLoop f (Some [c]) r"
    by (subst fieldsLoop_None) (simp only: assms list.case)
  then show ?thesis unfolding FieldsFunc_def using nf by (simp add: fieldsLoop_Some)
qed

lemma first_field:
  "(case FieldsFunc line pipSplit of [] \<Rightarrow> None | f # _ \<Rightarrow> Some (TrimSpace f)) = packageName line"
proof (cases "dropWhile pipSplit line")
  case Nil
  then have "list_all pipSplit line" by (simp add: list_all_iff)
  then show ?thesis using FieldsFunc_Nil[OF Nil] by (simp add: packageName_def)
next
  case (Cons c r)
  have "dropWhile pipSplit line \<noteq> []" using Cons by simp
  then have "\<not> list_all pipSplit line" by (simp add: list_all_iff)
  then show ?thesis using FieldsFunc_Cons[OF Cons] Cons
    by (simp add: packageName_def spec_leadingToken_def)
qed

lemma row_identifier:
  "(let pkgrow = FieldsFunc line pipSplit in
      if length pkgrow > 0 then pkgs @ [TrimSpace (pkgrow ! 0)] else pkgs)
   = pkgs @ (case packageName line of None \<Rightarrow> [] | Some i \<Rightarrow> [i])"
  unfolding first_field[symmetric] by (cases "FieldsFunc line pipSplit") (simp_all add: Let_def)

lemma readLines_comment:
  "HasPrefix (TrimSpace l0) ''#'' \<Longrightarrow> readLines line pkgs (l0 # ls) = readLines line pkgs ls"
  by (simp add: Let_def)

lemma readLines_blank:
  "\<not> HasPrefix (TrimSpace l0) ''#'' \<Longrightarrow> TrimSpace l0 = [] \<Longrightarrow>
     readLines line pkgs (l0 # ls) = readLines line pkgs ls"
  by (simp add: Let_def)

lemma readLines_continued:
  "\<not> HasPrefix (TrimSpace l0) ''#'' \<Longrightarrow> TrimSpace l0 \<noteq> [] \<Longrightarrow> HasSuffix (TrimSpace l0) [BSL] \<Longrightarrow>
     readLines line pkgs (l0 # ls) = readLines (line @ butlast (TrimSpace l0)) pkgs ls"
  by (simp add: Let_def butlast_conv_take)

lemma readLines_complete:
  assumes "\<not> HasPrefix (TrimSpace l0) ''#''" "TrimSpace l0 \<noteq> []" "\<not> HasSuffix (TrimSpace l0) [BSL]"
  shows "readLines line pkgs (l0 # ls) =
     readLines [] (pkgs @ (case packageName (line @ TrimSpace l0) of None \<Rightarrow> [] | Some i \<Rightarrow> [i])) ls"
proof -
  have "readLines line pkgs (l0 # ls) =
     readLines [] (let pkgrow = FieldsFunc (line @ TrimSpace l0) pipSplit in
      if length pkgrow > 0 then pkgs @ [TrimSpace (pkgrow ! 0)] else pkgs) ls"
    using assms by (simp add: Let_def)
  then show ?thesis by (simp only: row_identifier)
qed

lemma HasPrefix_hash: "HasPrefix l ''#'' \<longleftrightarrow> l \<noteq> [] \<and> hd l = CHR ''#''"
  by (cases l) (auto simp: HasPrefix_def)

lemma HasSuffix_BSL: "HasSuffix l [BSL] \<longleftrightarrow> l \<noteq> [] \<and> last l = BSL"
  by (cases l rule: rev_cases) (auto simp: HasSuffix_def)

lemma joinContinued_complete: "\<not> HasSuffix l [BSL] \<Longrightarrow> joinContinued (l # ls) = l # joinContinued ls"
  by (cases ls) simp_all

lemma joinContinued_pending:
  "(case ts of [] \<Rightarrow> [] | t # ts' \<Rightarrow> joinContinued (([] @ t) # ts')) = joinContinued ts"
  by (cases ts) simp_all

lemma continuationsClosed_tail: "continuationsClosed (l # ls) \<Longrightarrow> continuationsClosed ls"
  by (cases ls) simp_all

lemma continuationsClosed_comment:
  "continuationsClosed (l # ls) \<Longrightarrow> HasPrefix l ''#'' \<Longrightarrow> \<not> HasSuffix l [BSL]"
  by (cases ls) auto

lemma continuationsClosed_continued:
  assumes "continuationsClosed (l # ls)" "HasSuffix l [BSL]"
  obtains m ms where "ls = m # ms" "m \<noteq> []" "\<not> HasPrefix m ''#''"
  using assms by (cases ls) auto

text \<open>
  The loop of the parser with the text \<open>acc\<close> of an open continuation, on lines whose
  continuations are closed: the pending text goes in front of the next line, which is
  then neither empty nor a comment.
\<close>

lemma readLines_logical:
  assumes "continuationsClosed (map TrimSpace ls)"
    and "acc \<noteq> [] \<Longrightarrow> ls \<noteq> [] \<and> TrimSpace (hd ls) \<noteq> [] \<and> \<not> HasPrefix (TrimSpace (hd ls)) ''#''
           \<and> \<not> HasPrefix acc ''#''"
  shows "readLines acc pkgs ls =
     pkgs @ List.map_filter packageName (filter (\<lambda>l. \<not> HasPrefix l ''#'')
       (case map TrimSpace ls of [] \<Rightarrow> [] | t # ts \<Rightarrow> joinContinued ((acc @ t) # ts)))"
  using assms
proof (induction ls arbitrary: acc pkgs)
  case Nil
  then have "acc = []" by auto
  then show ?case by (simp add: map_filter_simps)
next
  case (Cons l0 rest)
  let ?l = "TrimSpace l0" and ?ts = "map TrimSpace rest"
  have closed: "continuationsClosed (?l # ?ts)" using Cons.prems(1) by simp
  have tail: "continuationsClosed ?ts" using closed by (rule continuationsClosed_tail)
  have pending: "acc \<noteq> [] \<Longrightarrow> ?l \<noteq> [] \<and> \<not> HasPrefix ?l ''#'' \<and> \<not> HasPrefix acc ''#''"
    using Cons.prems(2) by simp
  have fresh: "readLines [] ps rest =
      ps @ List.map_filter packageName (filter (\<lambda>l. \<not> HasPrefix l ''#'') (joinContinued ?ts))" for ps
    using Cons.IH[of "[]" ps, OF tail] by (simp only: joinContinued_pending) simp
  consider (comment) "HasPrefix ?l ''#''"
    | (blank) "\<not> HasPrefix ?l ''#''" "?l = []"
    | (continued) "\<not> HasPrefix ?l ''#''" "?l \<noteq> []" "HasSuffix ?l [BSL]"
    | (complete) "\<not> HasPrefix ?l ''#''" "?l \<noteq> []" "\<not> HasSuffix ?l [BSL]"
    by blast
  then show ?case
  proof cases
    case comment
    have acc: "acc = []" using pending comment by blast
    have code: "readLines acc pkgs (l0 # rest) = readLines [] pkgs rest"
      unfolding acc using comment by (rule readLines_comment)
    have "joinContinued (?l # ?ts) = ?l # joinContinued ?ts"
      using continuationsClosed_comment[OF closed comment] by (rule joinContinued_complete)
    then show ?thesis
      unfolding code fresh using comment acc by simp
  next
    case blank
    have acc: "acc = []" using pending blank by blast
    have code: "readLines acc pkgs (l0 # rest) = readLines [] pkgs rest"
      unfolding acc using blank by (rule readLines_blank)
    have "joinContinued (?l # ?ts) = ?l # joinContinued ?ts"
      using blank by (intro joinContinued_complete) (simp add: HasSuffix_BSL)
    moreover have "packageName [] = None" by (simp add: packageName_def)
    ultimately show ?thesis
      unfolding code fresh using blank acc by (simp add: map_filter_simps HasPrefix_hash)
  next
    case continued
    obtain m ms where ts: "?ts = m # ms" and m: "m \<noteq> []" "\<not> HasPrefix m ''#''"
      using continuationsClosed_continued[OF closed continued(3)] by blast
    then obtain m0 rest' where rest: "rest = m0 # rest'" and m0: "m = TrimSpace m0" "ms = map TrimSpace rest'"
      by (cases rest) auto
    have code: "readLines acc pkgs (l0 # rest) = readLines (acc @ butlast ?l) pkgs rest"
      using continued by (rule readLines_continued)
    have quiet: "\<not> HasPrefix (acc @ butlast ?l) ''#''"
    proof (cases "acc = []")
      case True
      then show ?thesis using continued(1,2) by (cases ?l) (auto simp: HasPrefix_hash)
    next
      case False
      then show ?thesis using pending by (simp add: HasPrefix_hash)
    qed
    have step: "readLines (acc @ butlast ?l) pkgs rest =
        pkgs @ List.map_filter packageName (filter (\<lambda>l. \<not> HasPrefix l ''#'')
          (joinContinued (((acc @ butlast ?l) @ m) # ms)))"
      using Cons.IH[of "acc @ butlast ?l" pkgs, OF tail] m quiet
      by (simp add: rest m0)
    have "HasSuffix (acc @ ?l) [BSL]" using continued by (simp add: HasSuffix_BSL)
    then have "joinContinued ((acc @ ?l) # m # ms) = joinContinued ((butlast (acc @ ?l) @ m) # ms)"
      by simp
    also have "butlast (acc @ ?l) = acc @ butlast ?l" using continued(2) by (simp add: butlast_append)
    finally have spec: "joinContinued ((acc @ ?l) # m # ms) = joinContinued (((acc @ butlast ?l) @ m) # ms)" .
    show ?thesis
      unfolding code step spec[symmetric] using ts by simp
  next
    case complete
    have code: "readLines acc pkgs (l0 # rest) =
        readLines [] (pkgs @ (case packageName (acc @ ?l) of None \<Rightarrow> [] | Some i \<Rightarrow> [i])) rest"
      using complete by (rule readLines_complete)
    have "\<not> HasSuffix (acc @ ?l) [BSL]" using complete by (simp add: HasSuffix_BSL)
    then have spec: "joinContinued ((acc @ ?l) # ?ts) = (acc @ ?l) # joinContinued ?ts"
      by (rule joinContinued_complete)
    have quiet: "\<not> HasPrefix (acc @ ?l) ''#''"
      using pending complete(1) by (cases "acc = []") (simp_all add: HasPrefix_hash)
    show ?thesis
      unfolding code fresh using spec quiet
      by (simp add: map_filter_simps split: option.splits)
  qed
qed

subsection \<open>Running a flow on a concrete input\<close>

lemma Safe_addAll: "Safe (addAll pkgs result) = Safe result"
  by (induction pkgs arbitrary: result) (simp_all add: AddVulnerable_def)

lemma Vulnerable_addAll: "Vulnerable (addAll pkgs result) = Vulnerable result @ pkgs"
  by (induction pkgs arbitrary: result) (simp_all add: AddVulnerable_def)

lemmas run_defs =
  runWebCommand_def processWebTargetsWithWorkers_def formatBool_def ScanTarget_def Scanner_scanDependencyFile_def deepScan_def scanDirectory_def
  runScanCommand_def Client_scanDependencyFile_def getFileContent_def GetContent_def
  removeSafe_def Client_removeSafe_def printResult_def IsVulnerable_def
  NewScanResult_def AddVulnerable_def Finalize_def summary_def
  createTempFile_def Remove_def getLanguageFromFile_def fileLanguageMap_def Base_def
  getDependencyFilePaths_def pipPlatform_def pipFactory_def parseURL_def urlString_def joinPath_def
  isSlash_def globMatch_def inRange_def matchWarning_def
  PythonLookup_ReadPackagesFromFile_def PythonLookup_PackagesNotInPublic_def
  PythonLookup_isAvailableInPublic_def NewPythonLookup_def ReadFile_def Split_NL_def FieldsFunc_def
  pipSplit_def inSlice_def TrimSpace_def asciiSpace_def HasPrefix_def HasSuffix_def
  http_Get_def emit_def emit_if_def sent_def blank_def diskOf_def pypi_def Itoa_def Let_def

section \<open>The claims\<close>

subsection \<open>Retries on 429\<close>

text \<open>
  C1, as stated, fails. Against a registry that answers 429 every time the composer check
  sends four requests, not three: the fourth request is sent and is answered 429 as well,
  and each of the four answers is followed by a sleep of 10 seconds. The pip check does
  not sleep or ask again on a 429.
\<close>

theorem three_attempts_counterexample:
  "sent (snd (ComposerLookup_isAvailableInPublic always429 (NewComposerLookup False) ''acme/private'' 0 blank)) = 4
   \<and> always429 (packagist ''acme/private'') 3 = Response ''429 Too Many Requests'' 429 []
   \<and> naps (trace (snd (ComposerLookup_isAvailableInPublic always429 (NewComposerLookup False) ''acme/private'' 0 blank)))
       = replicate 4 10
   \<and> PythonLookup_isAvailableInPublic always429 (NewPythonLookup False) ''acme-private'' blank
       = (False, \<lparr>files = Map.empty, trace = [Get (pypi ''acme-private'')]\<rparr>)"
proof -
  have a: "\<forall>k. \<exists>s b. always429 (packagist ''acme/private'') k = Response s 429 b"
    by (simp add: always429_def)
  have p: "always429 (pypi ''acme-private'') (sent blank) = Response ''429 Too Many Requests'' 429 []"
    by (simp add: always429_def)
  have pip: "PythonLookup_isAvailableInPublic always429 (NewPythonLookup False) ''acme-private'' blank
       = (False, \<lparr>files = Map.empty, trace = [Get (pypi ''acme-private'')]\<rparr>)"
    by (subst pip_response[where net=always429 and w=blank, OF p])
       (simp add: blank_def pip_asked_def emit_def emit_if_def NewPythonLookup_def)
  show ?thesis
    using composer_all_429[where net=always429 and p="''acme/private''" and c="NewComposerLookup False"
        and retry=0 and w=blank, OF a] pip
    by (simp add: sent_def blank_def always429_def)
qed

text \<open>
  C1, amended. In the composer and the maven check a response with status 429 makes the
  resolver print, sleep 10 seconds and ask again. A check sends at most 4 requests (the
  first and 3 retries), all for the same URL, and sleeps 10 seconds at most once per
  request. When the registry answers 429 every time there are exactly 4 requests and 4
  sleeps, and the package is reported unavailable with the warning that the retries are
  exhausted as the last line.
\<close>

theorem retry_on_429_sends_at_most_four_requests:
  "(retry \<le> 3 \<and> net (packagist p) (sent w) = Response status 429 body \<longrightarrow>
      ComposerLookup_isAvailableInPublic net c p retry w =
        ComposerLookup_isAvailableInPublic net c p (retry + 1)
          (emit (Sleep 10) (emit throttling
            (emit_if (ComposerLookup.Verbose c) (statusLine status) (composer_asked c p w)))))
   \<and> (\<exists>k j. k \<le> 4 \<and> j \<le> k
        \<and> urls (trace (snd (ComposerLookup_isAvailableInPublic net c p 0 w)))
             = urls (trace w) @ replicate k (packagist p)
        \<and> naps (trace (snd (ComposerLookup_isAvailableInPublic net c p 0 w)))
             = naps (trace w) @ replicate j 10)
   \<and> ((\<forall>k. \<exists>s b. net (packagist p) k = Response s 429 b) \<longrightarrow>
        fst (ComposerLookup_isAvailableInPublic net c p 0 w) = False
        \<and> urls (trace (snd (ComposerLookup_isAvailableInPublic net c p 0 w)))
             = urls (trace w) @ replicate 4 (packagist p)
        \<and> naps (trace (snd (ComposerLookup_isAvailableInPublic net c p 0 w)))
             = naps (trace w) @ replicate 4 10
        \<and> last (trace (snd (ComposerLookup_isAvailableInPublic net c p 0 w))) = retriesExhausted p)
   \<and> (retry \<le> 3 \<and> Group pkg \<noteq> [] \<and> net (mavenRepo pkg) (sent w) = Response status 429 body \<longrightarrow>
      MVNLookup_isAvailableInPublic net unpublished n pkg retry w =
        MVNLookup_isAvailableInPublic net unpublished n pkg (retry + 1)
          (emit (Sleep 10) (emit throttling
            (emit_if (MVNLookup.Verbose n) (statusLine status) (mvn_asked n pkg w)))))
   \<and> (\<exists>k j. k \<le> 4 \<and> j \<le> k
        \<and> urls (trace (snd (MVNLookup_isAvailableInPublic net unpublished n pkg 0 w)))
             = urls (trace w) @ replicate k (mavenRepo pkg)
        \<and> naps (trace (snd (MVNLookup_isAvailableInPublic net unpublished n pkg 0 w)))
             = naps (trace w) @ replicate j 10)
   \<and> (Group pkg \<noteq> [] \<and> (\<forall>k. \<exists>s b. net (mavenRepo pkg) k = Response s 429 b) \<longrightarrow>
        fst (MVNLookup_isAvailableInPublic net unpublished n pkg 0 w) = False
        \<and> urls (trace (snd (MVNLookup_isAvailableInPublic net unpublished n pkg 0 w)))
             = urls (trace w) @ replicate 4 (mavenRepo pkg)
        \<and> naps (trace (snd (MVNLookup_isAvailableInPublic net unpublished n pkg 0 w)))
             = naps (trace w) @ replicate 4 10
        \<and> last (trace (snd (MVNLookup_isAvailableInPublic net unpublished n pkg 0 w)))
             = retriesExhausted (Group pkg))"
proof (intro conjI)
  show "retry \<le> 3 \<and> net (packagist p) (sent w) = Response status 429 body \<longrightarrow>
      ComposerLookup_isAvailableInPublic net c p retry w =
        ComposerLookup_isAvailableInPublic net c p (retry + 1)
          (emit (Sleep 10) (emit throttling
            (emit_if (ComposerLookup.Verbose c) (statusLine status) (composer_asked c p w))))"
    by (simp add: composer_response Let_def)
  show "\<exists>k j. k \<le> 4 \<and> j \<le> k
        \<and> urls (trace (snd (ComposerLookup_isAvailableInPublic net c p 0 w)))
             = urls (trace w) @ replicate k (packagist p)
        \<and> naps (trace (snd (ComposerLookup_isAvailableInPublic net c p 0 w)))
             = naps (trace w) @ replicate j 10"
    using composer_effects[of net c p 0 w] by auto
  show "(\<forall>k. \<exists>s b. net (packagist p) k = Response s 429 b) \<longrightarrow>
        fst (ComposerLookup_isAvailableInPublic net c p 0 w) = False
        \<and> urls (trace (snd (ComposerLookup_isAvailableInPublic net c p 0 w)))
             = urls (trace w) @ replicate 4 (packagist p)
        \<and> naps (trace (snd (ComposerLookup_isAvailableInPublic net c p 0 w)))
             = naps (trace w) @ replicate 4 10
        \<and> last (trace (snd (ComposerLookup_isAvailableInPublic net c p 0 w))) = retriesExhausted p"
    using composer_all_429[of net p c 0 w] by simp
  show "retry \<le> 3 \<and> Group pkg \<noteq> [] \<and> net (mavenRepo pkg) (sent w) = Response status 429 body \<longrightarrow>
      MVNLookup_isAvailableInPublic net unpublished n pkg retry w =
        MVNLookup_isAvailableInPublic net unpublished n pkg (retry + 1)
          (emit (Sleep 10) (emit throttling
            (emit_if (MVNLookup.Verbose n) (statusLine status) (mvn_asked n pkg w))))"
    by (simp add: mvn_response Let_def)
  show "\<exists>k j. k \<le> 4 \<and> j \<le> k
        \<and> urls (trace (snd (MVNLookup_isAvailableInPublic net unpublished n pkg 0 w)))
             = urls (trace w) @ replicate k (mavenRepo pkg)
        \<and> naps (trace (snd (MVNLookup_isAvailableInPublic net unpublished n pkg 0 w)))
             = naps (trace w) @ replicate j 10"
    using mvn_effects[of net unpublished n pkg 0 w] by auto
  show "Group pkg \<noteq> [] \<and> (\<forall>k. \<exists>s b. net (mavenRepo pkg) k = Response s 429 b) \<longrightarrow>
        fst (MVNLookup_isAvailableInPublic net unpublished n pkg 0 w) = False
        \<and> urls (trace (snd (MVNLookup_isAvailableInPublic net unpublished n pkg 0 w)))
             = urls (trace w) @ replicate 4 (mavenRepo pkg)
        \<and> naps (trace (snd (MVNLookup_isAvailableInPublic net unpublished n pkg 0 w)))
             = naps (trace w) @ replicate 4 10
        \<and> last (trace (snd (MVNLookup_isAvailableInPublic net unpublished n pkg 0 w)))
             = retriesExhausted (Group pkg)"
    using mvn_all_429[of net pkg unpublished n 0 w] by simp
qed

theorem retry_on_429_sends_at_most_four_requests_witness:
  "(0::int) \<le> 3 \<and> Group billing \<noteq> []
   \<and> always429 (packagist ''acme/private'') (sent blank) = Response ''429 Too Many Requests'' 429 []
   \<and> (\<forall>k. \<exists>s b. always429 (packagist ''acme/private'') k = Response s 429 b)
   \<and> (\<forall>k. \<exists>s b. always429 (mavenRepo billing) k = Response s 429 b)
   \<and> fst (ComposerLookup_isAvailableInPublic always429 (NewComposerLookup False) ''acme/private'' 0 blank) = False
   \<and> urls (trace (snd (ComposerLookup_isAvailableInPublic always429 (NewComposerLookup False) ''acme/private'' 0 blank)))
        = replicate 4 (packagist ''acme/private'')
   \<and> naps (trace (snd (MVNLookup_isAvailableInPublic always429 never (NewMVNLookup False) billing 0 blank)))
        = replicate 4 10
   \<and> last (trace (snd (MVNLookup_isAvailableInPublic always429 never (NewMVNLookup False) billing 0 blank)))
        = retriesExhausted ''com.acme.internal''"
proof -
  note t = retry_on_429_sends_at_most_four_requests
    [of 0 always429 "''acme/private''" blank "''429 Too Many Requests''" "[]"
        "NewComposerLookup False" billing never "NewMVNLookup False"]
  note composer = t[THEN conjunct2, THEN conjunct2, THEN conjunct1, THEN mp]
  note maven = t[THEN conjunct2, THEN conjunct2, THEN conjunct2, THEN conjunct2, THEN conjunct2, THEN mp]
  have a: "\<forall>k. \<exists>s b. always429 (packagist ''acme/private'') k = Response s 429 b"
    and b: "\<forall>k. \<exists>s b. always429 (mavenRepo billing) k = Response s 429 b"
    and g: "Group billing \<noteq> []"
    by (simp_all add: always429_def billing_def)
  show ?thesis
    using composer[OF a] maven[OF conjI[OF g b]] a b g
    by (simp add: blank_def always429_def billing_def)
qed

subsection \<open>Safe packages in the scan result\<close>

text \<open>
  No scan flow ever puts a package in the list of safe packages: whatever the platform,
  the result of the file scan, of the GitHub file scan and of the web file scan has an
  empty \<open>Safe\<close> and counts the vulnerable packages only.
\<close>

lemma file_scan_adds_no_safe:
  "fst (runScanCommand P verbose workers filename language safeSpaces w) = Inr (result, code) \<Longrightarrow>
     Safe result = [] \<and> Total result = int (length (Vulnerable result))"
  by (auto simp: runScanCommand_def Let_def Finalize_def NewScanResult_def Safe_addAll Vulnerable_addAll
        split: sum.splits prod.splits option.splits)

lemma github_scan_adds_no_safe:
  "fst (Client_scanDependencyFile P verbose owner repo file safeSpaces w) = Inr result \<Longrightarrow>
     Safe result = [] \<and> Total result = int (length (Vulnerable result))"
  by (auto simp: Client_scanDependencyFile_def Let_def Finalize_def NewScanResult_def Safe_addAll
        Vulnerable_addAll split: sum.splits prod.splits option.splits if_splits)

lemma web_scan_adds_no_safe:
  "fst (Scanner_scanDependencyFile P baseURL filePath langs w) = Inr result \<Longrightarrow>
     Safe result = [] \<and> Total result = int (length (Vulnerable result))"
  by (auto simp: Scanner_scanDependencyFile_def Let_def Finalize_def NewScanResult_def Safe_addAll
        Vulnerable_addAll split: sum.splits prod.splits option.splits if_splits http_result.splits)

text \<open>
  C2, at a failing input. The requirements file names \<^verbatim>\<open>requests\<close>, for which PyPI answers
  200, and \<^verbatim>\<open>internal-billing\<close>, for which it answers 404. The scan asks for both and
  reports \<^verbatim>\<open>internal-billing\<close> vulnerable, but its list of safe packages is empty and its
  total is 1: \<^verbatim>\<open>requests\<close> is in neither list.
\<close>

theorem scan_result_has_no_safe_packages:
  "pypiC (pypi ''requests'') 0 = Response ''200 OK'' 200 []
   \<and> pypiC (pypi ''internal-billing'') 1 = Response ''404 Not Found'' 404 []
   \<and> map_sum id (summary \<circ> fst)
        (fst (runScanCommand (pipPlatform pypiC noApi) False 10 ''requirements.txt'' ''pip'' []
               (diskOf ''requirements.txt'' (''requests'' @ [NL] @ ''internal-billing'' @ [NL]))))
       = Inr (''requirements.txt'', [''internal-billing''], [], 1)
   \<and> urls (trace (snd (runScanCommand (pipPlatform pypiC noApi) False 10 ''requirements.txt'' ''pip'' []
               (diskOf ''requirements.txt'' (''requests'' @ [NL] @ ''internal-billing'' @ [NL])))))
       = [pypi ''requests'', pypi ''internal-billing'']"
  by (simp add: run_defs pypiC_def)

subsection \<open>Safe spaces\<close>

text \<open>
  The safe spaces in the file flow and in the GitHub flow: \<^verbatim>\<open>removeSafe\<close> keeps exactly the
  packages that no safe space matches, a pattern with an error counting as no match.
\<close>

lemma ignoredLoop_matches:
  "fst (ignoredLoop match pkg safeSpaces w) = list_ex (\<lambda>safeSpace. match safeSpace pkg = Inr True) safeSpaces"
  by (induction safeSpaces arbitrary: w) (auto split: sum.splits)

lemma removeSafeLoop_filter:
  "fst (removeSafeLoop match retSlice pkgs safeSpaces w) =
     retSlice @ filter (\<lambda>pkg. \<not> list_ex (\<lambda>safeSpace. match safeSpace pkg = Inr True) safeSpaces) pkgs"
  by (induction pkgs arbitrary: retSlice w) (simp_all add: Let_def ignoredLoop_matches)

lemma removeSafe_filter:
  "fst (removeSafe match pkgs safeSpaces w) =
     filter (\<lambda>pkg. \<not> list_ex (\<lambda>safeSpace. match safeSpace pkg = Inr True) safeSpaces) pkgs"
  "fst (Client_removeSafe match pkgs safeSpaces w) =
     filter (\<lambda>pkg. \<not> list_ex (\<lambda>safeSpace. match safeSpace pkg = Inr True) safeSpaces) pkgs"
  by (simp_all add: removeSafe_def Client_removeSafe_def removeSafeLoop_filter)

text \<open>
  C3, at a failing input. The web command is given the safe space \<^verbatim>\<open>internal-*\<close>, which
  matches \<^verbatim>\<open>internal-billing\<close>; the target serves a requirements file with that package,
  unknown to PyPI. The web scan reports the package vulnerable all the same, while the
  file scan of the same content with the same safe space reports nothing. In the flows that
  do filter, \<^verbatim>\<open>@company/*\<close> removes \<^verbatim>\<open>@company/foo\<close> and leaves \<^verbatim>\<open>@other/foo\<close>, and the
  malformed pattern \<^verbatim>\<open>[\<close> is logged and passed over.
\<close>

theorem web_scan_ignores_safe_spaces:
  "globMatch ''internal-*'' ''internal-billing'' = Inr True
   \<and> flag_safe_spaces webFlagsS = [''internal-*'']
   \<and> map summary (fst (runWebCommand (pipPlatform pypiC noApi) webFlagsS [''example.com''] blank))
       = [(''example.com:requirements.txt'', [''internal-billing''], [], 1)]
   \<and> map_sum id (summary \<circ> fst)
        (fst (runScanCommand (pipPlatform pypiC noApi) False 10 ''requirements.txt'' ''pip'' [''internal-*'']
               (diskOf ''requirements.txt'' (''internal-billing'' @ [NL]))))
       = Inr (''requirements.txt'', [], [], 0)
   \<and> fst (removeSafe globMatch [''@company/foo'', ''@other/foo''] [''@company/*''] blank) = [''@other/foo'']
   \<and> removeSafe globMatch [''@company/foo''] [''['', ''@company/*''] blank
       = ([], emit (matchWarning ''['' ''syntax error in pattern'') blank)"
  by (simp add: run_defs pypiC_def webFlagsS_def parseRanges.simps)

subsection \<open>Blobs of a GitHub repository\<close>

text \<open>
  C4, at a failing input. The blob API of GitHub answers with the base64 text of the
  file, here of a requirements file with the one line \<^verbatim>\<open>requests\<close>. \<^verbatim>\<open>getFileContent\<close>
  returns that text as it is, the parser reads it as the name of a package, and the scan
  asks PyPI for \<^verbatim>\<open>cmVxdWVzdHMK\<close> and reports it vulnerable; \<^verbatim>\<open>requests\<close> is never looked up.
\<close>

theorem blob_content_is_not_decoded:
  "base64 (''requests'' @ [NL]) = ''cmVxdWVzdHMK''
   \<and> getFileContent (pipPlatform pypiC blobApi) ''acme'' ''shop'' ''3b18e512''
       = Inr (''cmVxdWVzdHMK'' @ [NL])
   \<and> map_sum id summary
        (fst (Client_scanDependencyFile (pipPlatform pypiC blobApi) False ''acme'' ''shop''
               requirementsEntry [] blank))
       = Inr (''acme/shop:requirements.txt'', [''cmVxdWVzdHMK''], [], 1)
   \<and> urls (trace (snd (Client_scanDependencyFile (pipPlatform pypiC blobApi) False ''acme'' ''shop''
               requirementsEntry [] blank)))
       = [pypi ''cmVxdWVzdHMK'']"
  by (simp add: run_defs pypiC_def blobApi_def requirementsEntry_def b64digit_def)

subsection \<open>Pinned composer packages\<close>

text \<open>
  C5. A composer package whose version string starts with \<^verbatim>\<open>file:\<close>, \<^verbatim>\<open>http:\<close>, \<^verbatim>\<open>https:\<close>,
  \<^verbatim>\<open>git:\<close>, \<^verbatim>\<open>git+ssh:\<close>, \<^verbatim>\<open>git+http:\<close> or \<^verbatim>\<open>git+https:\<close> is pinned; the loop of
  \<^verbatim>\<open>PackagesNotInPublic\<close> passes over a pinned package without touching the world or the
  list. So the resolver does exactly what it would do on the packages that are not pinned:
  every identifier it reports and every URL it requests belongs to one of those.
\<close>

theorem pinned_composer_packages_are_never_checked:
  "(HasPrefix v ''file:'' \<or> HasPrefix v ''http:'' \<or> HasPrefix v ''https:'' \<or> HasPrefix v ''git:''
      \<or> HasPrefix v ''git+ssh:'' \<or> HasPrefix v ''git+http:'' \<or> HasPrefix v ''git+https:''
    \<longrightarrow> pinned v)
   \<and> (pinned (ComposerPackage.Version pkg) \<longrightarrow>
        ComposerLookup_notavailLoop net c notavail (pkg # pkgs) w
          = ComposerLookup_notavailLoop net c notavail pkgs w)
   \<and> ComposerLookup_PackagesNotInPublic net c w =
        ComposerLookup_notavailLoop net c []
          (filter (\<lambda>p. \<not> pinned (ComposerPackage.Version p)) (ComposerLookup.Packages c)) w
   \<and> set (fst (ComposerLookup_PackagesNotInPublic net c w))
        \<subseteq> Name ` {p \<in> set (ComposerLookup.Packages c). \<not> pinned (ComposerPackage.Version p)}
   \<and> set (urls (trace (snd (ComposerLookup_PackagesNotInPublic net c w))))
        \<subseteq> set (urls (trace w))
          \<union> (\<lambda>p. packagist (Name p)) ` {p \<in> set (ComposerLookup.Packages c). \<not> pinned (ComposerPackage.Version p)}"
proof (intro conjI impI)
  assume "HasPrefix v ''file:'' \<or> HasPrefix v ''http:'' \<or> HasPrefix v ''https:'' \<or> HasPrefix v ''git:''
      \<or> HasPrefix v ''git+ssh:'' \<or> HasPrefix v ''git+http:'' \<or> HasPrefix v ''git+https:''"
  then show "pinned v"
    unfolding pinned_def using literal_prefixes_pinned[of v] by blast
next
  assume "pinned (ComposerPackage.Version pkg)"
  then show "ComposerLookup_notavailLoop net c notavail (pkg # pkgs) w
          = ComposerLookup_notavailLoop net c notavail pkgs w"
    by (simp add: pinned_def)
next
  show "ComposerLookup_PackagesNotInPublic net c w =
        ComposerLookup_notavailLoop net c []
          (filter (\<lambda>p. \<not> pinned (ComposerPackage.Version p)) (ComposerLookup.Packages c)) w"
    unfolding ComposerLookup_PackagesNotInPublic_def by (rule composer_loop_skips)
next
  show "set (fst (ComposerLookup_PackagesNotInPublic net c w))
        \<subseteq> Name ` {p \<in> set (ComposerLookup.Packages c). \<not> pinned (ComposerPackage.Version p)}"
    unfolding ComposerLookup_PackagesNotInPublic_def
    using composer_loop_names[of net c "[]" "ComposerLookup.Packages c" w] by simp
next
  show "set (urls (trace (snd (ComposerLookup_PackagesNotInPublic net c w))))
        \<subseteq> set (urls (trace w))
          \<union> (\<lambda>p. packagist (Name p)) ` {p \<in> set (ComposerLookup.Packages c). \<not> pinned (ComposerPackage.Version p)}"
    unfolding ComposerLookup_PackagesNotInPublic_def
    by (rule composer_loop_urls)
qed

lemma monolog_is_checked:
  assumes "\<not> ComposerLookup.Verbose c"
  shows "ComposerLookup_isAvailableInPublic packagistB c ''monolog/monolog'' 0 diskB
     = (True, diskB\<lparr>trace := [Get (packagist ''monolog/monolog'')]\<rparr>)"
proof -
  have r: "packagistB (packagist ''monolog/monolog'') (sent diskB) = Response ''200 OK'' 200 []"
    by (simp add: packagistB_def)
  show ?thesis using assms
    by (subst composer_response[where net=packagistB and w=diskB, OF _ r])
       (simp_all add: Let_def composer_asked_def emit_def emit_if_def diskB_def)
qed

lemma not_pinned_caret: "\<not> pinned ''^3.0''"
  by (simp add: pinned_def localReference_def urlReference_def gitReference_def ToLower_def
        lowerChar_def HasPrefix_def Let_def)

theorem pinned_composer_packages_are_never_checked_witness:
  "HasPrefix ''file:./local'' ''file:'' \<and> pinned ''file:./local''
   \<and> ComposerLookup.Packages (snd (fst (ComposerLookup_ReadPackagesFromFile decodeB ''composer.json''
          (NewComposerLookup False) diskB)))
       = [\<lparr>Name = ''monolog/monolog'', Version = ''^3.0''\<rparr>,
          \<lparr>Name = ''internal/php-package'', Version = ''file:./local''\<rparr>]
   \<and> ComposerLookup_PackagesNotInPublic packagistB
        (snd (fst (ComposerLookup_ReadPackagesFromFile decodeB ''composer.json'' (NewComposerLookup False) diskB)))
        diskB
       = ([], diskB\<lparr>trace := [Get (packagist ''monolog/monolog'')]\<rparr>)
   \<and> ComposerLookup_PackagesNotInPublic packagistB
        (snd (fst (ComposerLookup_ReadPackagesFromFile decodeB' ''composer.json'' (NewComposerLookup False) diskB)))
        diskB
       = ([], diskB\<lparr>trace := [Get (packagist ''monolog/monolog'')]\<rparr>)"
proof -
  let ?c = "snd (fst (ComposerLookup_ReadPackagesFromFile decodeB ''composer.json'' (NewComposerLookup False) diskB))"
  let ?c' = "snd (fst (ComposerLookup_ReadPackagesFromFile decodeB' ''composer.json'' (NewComposerLookup False) diskB))"
  have pre: "HasPrefix ''file:./local'' ''file:''" by (simp add: HasPrefix_def)
  have c: "?c = (NewComposerLookup False)\<lparr>ComposerLookup.Packages :=
        [\<lparr>Name = ''monolog/monolog'', Version = ''^3.0''\<rparr>,
         \<lparr>Name = ''internal/php-package'', Version = ''file:./local''\<rparr>]\<rparr>"
    by (simp add: ComposerLookup_ReadPackagesFromFile_def ReadFile_def diskB_def decodeB_def
          NewComposerLookup_def Let_def)
  have c': "?c' = (NewComposerLookup False)\<lparr>ComposerLookup.Packages :=
        [\<lparr>Name = ''internal/php-package'', Version = ''file:./local''\<rparr>,
         \<lparr>Name = ''monolog/monolog'', Version = ''^3.0''\<rparr>]\<rparr>"
    by (simp add: ComposerLookup_ReadPackagesFromFile_def ReadFile_def diskB_def decodeB'_def
          NewComposerLookup_def Let_def)
  have pin: "pinned ''file:./local''"
    using pinned_composer_packages_are_never_checked[of "''file:./local''", THEN conjunct1] pre by blast
  have caret: "\<not> localReference ''^3.0''" "\<not> urlReference ''^3.0''" "\<not> gitReference ''^3.0''"
    using not_pinned_caret by (simp_all add: pinned_def)
  have v: "\<not> ComposerLookup.Verbose ?c" "\<not> ComposerLookup.Verbose ?c'"
    unfolding c c' by (simp_all add: NewComposerLookup_def)
  have "ComposerLookup_PackagesNotInPublic packagistB ?c diskB
       = ([], diskB\<lparr>trace := [Get (packagist ''monolog/monolog'')]\<rparr>)"
    unfolding pinned_composer_packages_are_never_checked[of _ _ packagistB ?c _ _ diskB,
        THEN conjunct2, THEN conjunct2, THEN conjunct1]
    using pin not_pinned_caret caret monolog_is_checked[OF v(1)] unfolding c by (simp add: Let_def)
  moreover have "ComposerLookup_PackagesNotInPublic packagistB ?c' diskB
       = ([], diskB\<lparr>trace := [Get (packagist ''monolog/monolog'')]\<rparr>)"
    unfolding pinned_composer_packages_are_never_checked[of _ _ packagistB ?c' _ _ diskB,
        THEN conjunct2, THEN conjunct2, THEN conjunct1]
    using pin not_pinned_caret caret monolog_is_checked[OF v(2)] unfolding c' by (simp add: Let_def)
  moreover have "ComposerLookup.Packages ?c
       = [\<lparr>Name = ''monolog/monolog'', Version = ''^3.0''\<rparr>,
          \<lparr>Name = ''internal/php-package'', Version = ''file:./local''\<rparr>]"
    unfolding c by simp
  ultimately show ?thesis using pre pin by blast
qed

subsection \<open>The pip parser\<close>

text \<open>
  C6, as stated, fails on a logical line that begins with a delimiter, and where a
  continuation is not closed. The line \<^verbatim>\<open>[project]\<close> begins with \<^verbatim>\<open>[\<close>: split at the first
  delimiter its leading token is empty, but the parser takes the first non-empty field and
  records the package \<^verbatim>\<open>project]\<close>. A continuation that is open at the end of the file is
  dropped with its package (\<^verbatim>\<open>beta\<close> below). An empty line after a continued line does not
  end the continuation: the parser passes over it and joins the next line (\<^verbatim>\<open>foo\<close> and
  \<^verbatim>\<open>bar==1\<close> become \<^verbatim>\<open>foobar\<close>).
\<close>

theorem pip_leading_token_counterexample:
  "PythonLookup_ReadPackagesFromFile ''requirements.txt'' (NewPythonLookup False)
       (diskOf ''requirements.txt'' ''[project]'')
     = ((None, (NewPythonLookup False)\<lparr>PythonLookup.Packages := [''project]'']\<rparr>),
        diskOf ''requirements.txt'' ''[project]'')
   \<and> spec_leadingToken ''[project]'' = []
   \<and> map spec_leadingToken (logicalLines (''alpha'' @ [NL] @ ''beta==1'' @ [BSL])) = [''alpha'', ''beta'']
   \<and> fst (PythonLookup_ReadPackagesFromFile ''requirements.txt'' (NewPythonLookup False)
          (diskOf ''requirements.txt'' (''alpha'' @ [NL] @ ''beta==1'' @ [BSL])))
       = (None, (NewPythonLookup False)\<lparr>PythonLookup.Packages := [''alpha'']\<rparr>)
   \<and> map spec_leadingToken (logicalLines (''foo'' @ [BSL, NL, NL] @ ''bar==1'')) = [''foo'', ''bar'']
   \<and> fst (PythonLookup_ReadPackagesFromFile ''requirements.txt'' (NewPythonLookup False)
          (diskOf ''requirements.txt'' (''foo'' @ [BSL, NL, NL] @ ''bar==1'')))
       = (None, (NewPythonLookup False)\<lparr>PythonLookup.Packages := [''foobar'']\<rparr>)"
  by (simp add: PythonLookup_ReadPackagesFromFile_def ReadFile_def diskOf_def logicalLines_def Split_NL_def
        TrimSpace_def asciiSpace_def HasPrefix_def HasSuffix_def FieldsFunc_def pipSplit_def inSlice_def
        spec_leadingToken_def Let_def NewPythonLookup_def)

text \<open>
  C6, amended. Take a pip requirements file whose continuations are closed: every line
  that ends with a backslash is not a comment and is followed by a line that is neither
  empty nor a comment. The parser reads the lines without the white space around them,
  joins a line that ends with a backslash (the backslash removed) with the lines after
  it before any splitting, and skips the lines that begin with \<^verbatim>\<open>#\<close>. Each logical line is
  then split at the delimiters \<^verbatim>\<open>= < > ! ~ # [\<close> and space, and its first non-empty piece,
  white space trimmed, is the package identifier; a line without such a piece gives none.
  For a logical line that does not begin with a delimiter this is the text before the
  first delimiter.
\<close>

theorem pip_reads_first_token_of_joined_lines:
  "(files w filename = Some rawfile \<and> continuationsClosed (map TrimSpace (Split_NL rawfile)) \<longrightarrow>
      PythonLookup_ReadPackagesFromFile filename p w
        = ((None, p\<lparr>PythonLookup.Packages :=
               PythonLookup.Packages p @ List.map_filter packageName (logicalLines rawfile)\<rparr>), w))
   \<and> (line \<noteq> [] \<and> \<not> pipSplit (hd line) \<longrightarrow>
        packageName line = Some (TrimSpace (spec_leadingToken line)))"
proof (intro conjI impI)
  assume a: "files w filename = Some rawfile \<and> continuationsClosed (map TrimSpace (Split_NL rawfile))"
  have "readLines [] (PythonLookup.Packages p) (Split_NL rawfile)
      = PythonLookup.Packages p @ List.map_filter packageName (logicalLines rawfile)"
    unfolding logicalLines_def
    using readLines_logical[of "Split_NL rawfile" "[]" "PythonLookup.Packages p"] a
    by (simp only: joinContinued_pending) simp
  then show "PythonLookup_ReadPackagesFromFile filename p w
        = ((None, p\<lparr>PythonLookup.Packages :=
               PythonLookup.Packages p @ List.map_filter packageName (logicalLines rawfile)\<rparr>), w)"
    using a by (simp add: PythonLookup_ReadPackagesFromFile_def ReadFile_def)
next
  assume "line \<noteq> [] \<and> \<not> pipSplit (hd line)"
  then obtain c r where l: "line = c # r" "\<not> pipSplit c" by (cases line) auto
  then show "packageName line = Some (TrimSpace (spec_leadingToken line))"
    by (simp add: packageName_def)
qed

lemma logicalLines_simple: "logicalLines ''requests==2.31.0'' = [''requests==2.31.0'']"
  by (simp add: logicalLines_def Split_NL_def TrimSpace_def asciiSpace_def HasPrefix_def HasSuffix_def)

lemma logicalLines_continued:
  "logicalLines (''foo==1.0'' @ [BSL, NL] @ ''.0'') = [''foo==1.0.0'']"
  by (simp add: logicalLines_def Split_NL_def TrimSpace_def asciiSpace_def HasPrefix_def HasSuffix_def)

lemma packageName_examples:
  "packageName ''requests==2.31.0'' = Some ''requests''"
  "packageName ''foo==1.0.0'' = Some ''foo''"
  by (simp_all add: packageName_def spec_leadingToken_def pipSplit_def inSlice_def
        TrimSpace_def asciiSpace_def)

theorem pip_reads_first_token_of_joined_lines_witness:
  "files (diskOf ''requirements.txt'' ''requests==2.31.0'') ''requirements.txt'' = Some ''requests==2.31.0''
   \<and> continuationsClosed (map TrimSpace (Split_NL ''requests==2.31.0''))
   \<and> continuationsClosed (map TrimSpace (Split_NL (''foo==1.0'' @ [BSL, NL] @ ''.0'')))
   \<and> ''requests==2.31.0'' \<noteq> [] \<and> \<not> pipSplit (hd ''requests==2.31.0'')
   \<and> spec_leadingToken ''requests==2.31.0'' = ''requests''
   \<and> PythonLookup_ReadPackagesFromFile ''requirements.txt'' (NewPythonLookup False)
        (diskOf ''requirements.txt'' ''requests==2.31.0'')
       = ((None, (NewPythonLookup False)\<lparr>PythonLookup.Packages := [''requests'']\<rparr>),
          diskOf ''requirements.txt'' ''requests==2.31.0'')
   \<and> logicalLines (''foo==1.0'' @ [BSL, NL] @ ''.0'') = [''foo==1.0.0'']
   \<and> PythonLookup_ReadPackagesFromFile ''requirements.txt'' (NewPythonLookup False)
        (diskOf ''requirements.txt'' (''foo==1.0'' @ [BSL, NL] @ ''.0''))
       = ((None, (NewPythonLookup False)\<lparr>PythonLookup.Packages := [''foo'']\<rparr>),
          diskOf ''requirements.txt'' (''foo==1.0'' @ [BSL, NL] @ ''.0''))"
proof -
  let ?one = "''requests==2.31.0''" and ?two = "''foo==1.0'' @ [BSL, NL] @ ''.0''"
  have f1: "files (diskOf ''requirements.txt'' ?one) ''requirements.txt'' = Some ?one"
    and f2: "files (diskOf ''requirements.txt'' ?two) ''requirements.txt'' = Some ?two"
    by (simp_all add: diskOf_def)
  have c1: "continuationsClosed (map TrimSpace (Split_NL ?one))"
    and c2: "continuationsClosed (map TrimSpace (Split_NL ?two))"
    by (simp_all add: Split_NL_def TrimSpace_def asciiSpace_def HasPrefix_def HasSuffix_def)
  have h: "?one \<noteq> [] \<and> \<not> pipSplit (hd ?one)"
    by (simp add: pipSplit_def inSlice_def)
  have n: "PythonLookup.Packages (NewPythonLookup False) = []"
    by (simp add: NewPythonLookup_def)
  note r1 = pip_reads_first_token_of_joined_lines
    [of "diskOf ''requirements.txt'' ?one" "''requirements.txt''" ?one "NewPythonLookup False" ?one]
  note r2 = pip_reads_first_token_of_joined_lines
    [of "diskOf ''requirements.txt'' ?two" "''requirements.txt''" ?two "NewPythonLookup False" ?one]
  have "packageName ?one = Some (TrimSpace (spec_leadingToken ?one))"
    using r1[THEN conjunct2, THEN mp, OF h] .
  then have lead: "spec_leadingToken ?one = ''requests''"
    by (simp add: spec_leadingToken_def pipSplit_def inSlice_def)
  show ?thesis
    using r1[THEN conjunct1, THEN mp, OF conjI[OF f1 c1]] r2[THEN conjunct1, THEN mp, OF conjI[OF f2 c2]]
      f1 c1 c2 h lead
    unfolding logicalLines_simple logicalLines_continued n
    by (simp add: packageName_examples)
qed

text \<open>
  The two files with a continuation that is not closed are outside the amended claim.
\<close>

lemma pip_continuations_not_closed:
  "\<not> continuationsClosed (map TrimSpace (Split_NL (''alpha'' @ [NL] @ ''beta==1'' @ [BSL])))"
  "\<not> continuationsClosed (map TrimSpace (Split_NL (''foo'' @ [BSL, NL, NL] @ ''bar==1'')))"
  by (simp_all add: Split_NL_def TrimSpace_def asciiSpace_def HasPrefix_def HasSuffix_def)

subsection \<open>The maven parser on malformed input\<close>

text \<open>
  C7. When the content of a \<^verbatim>\<open>pom.xml\<close> is shorter than 10 bytes, or \<^verbatim>\<open>xml.Unmarshal\<close>
  reports an error for it (malformed or truncated XML), the maven parser returns no error
  and leaves the lookup as it was, so a new lookup has no packages; it reads no other
  file, changes none and sends no request.
\<close>

theorem malformed_pom_yields_no_packages:
  "files w filename = Some rawfile \<and> (length rawfile < 10 \<or> (\<exists>err. unmarshal rawfile = Inl err)) \<longrightarrow>
     fst (MVNLookup_ReadPackagesFromFile unmarshal filename n w) = (None, n)
     \<and> fst (MVNLookup_ReadPackagesFromFile unmarshal filename (NewMVNLookup verbose) w)
         = (None, (NewMVNLookup verbose)\<lparr>MVNLookup.Packages := []\<rparr>)
     \<and> files (snd (MVNLookup_ReadPackagesFromFile unmarshal filename n w)) = files w
     \<and> urls (trace (snd (MVNLookup_ReadPackagesFromFile unmarshal filename n w))) = urls (trace w)"
proof (intro impI, elim conjE)
  assume f: "files w filename = Some rawfile"
    and bad: "length rawfile < 10 \<or> (\<exists>err. unmarshal rawfile = Inl err)"
  have r: "ReadFile filename w = Inr rawfile" using f by (simp add: ReadFile_def)
  have q: "urls [Print m] = []" for m by simp
  have *: "fst (MVNLookup_ReadPackagesFromFile unmarshal filename l w) = (None, l)
      \<and> files (snd (MVNLookup_ReadPackagesFromFile unmarshal filename l w)) = files w
      \<and> urls (trace (snd (MVNLookup_ReadPackagesFromFile unmarshal filename l w))) = urls (trace w)" for l
  proof (cases "length rawfile < 10")
    case True
    then show ?thesis
      by (simp add: MVNLookup_ReadPackagesFromFile_def r Let_def files_emit_if urls_emit_if q)
  next
    case False
    then obtain err where "unmarshal rawfile = Inl err" using bad by blast
    then show ?thesis using False
      by (simp add: MVNLookup_ReadPackagesFromFile_def r Let_def files_emit_if urls_emit_if q)
  qed
  show "fst (MVNLookup_ReadPackagesFromFile unmarshal filename n w) = (None, n)
     \<and> fst (MVNLookup_ReadPackagesFromFile unmarshal filename (NewMVNLookup verbose) w)
         = (None, (NewMVNLookup verbose)\<lparr>MVNLookup.Packages := []\<rparr>)
     \<and> files (snd (MVNLookup_ReadPackagesFromFile unmarshal filename n w)) = files w
     \<and> urls (trace (snd (MVNLookup_ReadPackagesFromFile unmarshal filename n w))) = urls (trace w)"
    using *[of n] *[of "NewMVNLookup verbose"] by (simp add: NewMVNLookup_def)
qed

theorem malformed_pom_yields_no_packages_witness:
  "files (diskOf ''pom.xml'' truncatedPom) ''pom.xml'' = Some truncatedPom
   \<and> \<not> length truncatedPom < 10 \<and> (\<exists>err. xmlOf truncatedPom = Inl err)
   \<and> MVNLookup_ReadPackagesFromFile xmlOf ''pom.xml'' (NewMVNLookup False) (diskOf ''pom.xml'' truncatedPom)
       = ((None, NewMVNLookup False), diskOf ''pom.xml'' truncatedPom)
   \<and> files (diskOf ''pom.xml'' ''<a/>'') ''pom.xml'' = Some ''<a/>'' \<and> length ''<a/>'' < 10
   \<and> MVNLookup_ReadPackagesFromFile xmlOf ''pom.xml'' (NewMVNLookup False) (diskOf ''pom.xml'' ''<a/>'')
       = ((None, NewMVNLookup False), diskOf ''pom.xml'' ''<a/>'')"
proof -
  have f1: "files (diskOf ''pom.xml'' truncatedPom) ''pom.xml'' = Some truncatedPom"
    and f2: "files (diskOf ''pom.xml'' ''<a/>'') ''pom.xml'' = Some ''<a/>''"
    by (simp_all add: diskOf_def)
  have e: "\<exists>err. xmlOf truncatedPom = Inl err" by (simp add: xmlOf_def)
  have l: "\<not> length truncatedPom < 10" by (simp add: truncatedPom_def)
  have w1: "snd (MVNLookup_ReadPackagesFromFile xmlOf ''pom.xml'' (NewMVNLookup False) (diskOf ''pom.xml'' truncatedPom))
      = diskOf ''pom.xml'' truncatedPom"
    using e l
    by (auto simp: MVNLookup_ReadPackagesFromFile_def ReadFile_def f1 Let_def emit_if_def NewMVNLookup_def)
  have w2: "snd (MVNLookup_ReadPackagesFromFile xmlOf ''pom.xml'' (NewMVNLookup False) (diskOf ''pom.xml'' ''<a/>''))
      = diskOf ''pom.xml'' ''<a/>''"
    by (simp add: MVNLookup_ReadPackagesFromFile_def ReadFile_def f2 Let_def emit_if_def NewMVNLookup_def)
  have t1: "fst (MVNLookup_ReadPackagesFromFile xmlOf ''pom.xml'' (NewMVNLookup False) (diskOf ''pom.xml'' truncatedPom))
      = (None, NewMVNLookup False)"
    using malformed_pom_yields_no_packages
      [of "diskOf ''pom.xml'' truncatedPom" "''pom.xml''" truncatedPom xmlOf "NewMVNLookup False" False]
      f1 e by blast
  have t2: "fst (MVNLookup_ReadPackagesFromFile xmlOf ''pom.xml'' (NewMVNLookup False) (diskOf ''pom.xml'' ''<a/>''))
      = (None, NewMVNLookup False)"
    using malformed_pom_yields_no_packages
      [of "diskOf ''pom.xml'' ''<a/>''" "''pom.xml''" "''<a/>''" xmlOf "NewMVNLookup False" False]
      f2 by simp
  show ?thesis
    using f1 f2 e l t1 t2 w1 w2 by (simp add: prod_eq_iff)
qed

subsection \<open>Transport errors\<close>

text \<open>
  C8. When the GET of a registry check fails in transport, the package is unavailable at
  once: the pip, composer and maven checks return false after that one request, with the
  error printed and without sleeping or asking again. Only a 429 is retried: a check whose
  answer is anything but a response with status 429 sends exactly one request and never
  sleeps (the pip check never asks twice at all).
\<close>

theorem transport_error_is_unavailable_without_retry:
  "(net (pypi p) (sent w) = Failed err \<longrightarrow>
      PythonLookup_isAvailableInPublic net l p w
        = (False, emit (requestError (pypi p) err) (pip_asked l p w)))
   \<and> (retry \<le> 3 \<and> net (packagist p) (sent w) = Failed err \<longrightarrow>
      ComposerLookup_isAvailableInPublic net c p retry w
        = (False, emit (requestError (packagist p) err) (composer_asked c p w)))
   \<and> (retry \<le> 3 \<and> Group pkg \<noteq> [] \<and> net (mavenRepo pkg) (sent w) = Failed err \<longrightarrow>
      MVNLookup_isAvailableInPublic net unpublished n pkg retry w
        = (False, emit (requestError (mavenRepo pkg) err) (mvn_asked n pkg w)))
   \<and> urls (trace (snd (PythonLookup_isAvailableInPublic net l p w))) = urls (trace w) @ [pypi p]
   \<and> naps (trace (snd (PythonLookup_isAvailableInPublic net l p w))) = naps (trace w)
   \<and> (retry \<le> 3 \<and> (\<forall>s b. net (packagist p) (sent w) \<noteq> Response s 429 b) \<longrightarrow>
      urls (trace (snd (ComposerLookup_isAvailableInPublic net c p retry w))) = urls (trace w) @ [packagist p]
      \<and> naps (trace (snd (ComposerLookup_isAvailableInPublic net c p retry w))) = naps (trace w))
   \<and> (retry \<le> 3 \<and> Group pkg \<noteq> [] \<and> (\<forall>s b. net (mavenRepo pkg) (sent w) \<noteq> Response s 429 b) \<longrightarrow>
      urls (trace (snd (MVNLookup_isAvailableInPublic net unpublished n pkg retry w)))
        = urls (trace w) @ [mavenRepo pkg]
      \<and> naps (trace (snd (MVNLookup_isAvailableInPublic net unpublished n pkg retry w))) = naps (trace w))"
  by (intro conjI impI)
     (simp_all add: pip_failed composer_failed mvn_failed pip_effects composer_once mvn_once)

theorem transport_error_is_unavailable_without_retry_witness:
  "unreachable (pypi ''requests'') (sent blank) = Failed ''dial tcp: lookup failed: no such host''
   \<and> unreachable (packagist ''requests'') (sent blank) = Failed ''dial tcp: lookup failed: no such host''
   \<and> unreachable (mavenRepo billing) (sent blank) = Failed ''dial tcp: lookup failed: no such host''
   \<and> (0::int) \<le> 3 \<and> Group billing \<noteq> []
   \<and> PythonLookup_isAvailableInPublic unreachable (NewPythonLookup False) ''requests'' blank
       = (False, \<lparr>files = Map.empty, trace = [Get (pypi ''requests''),
            requestError (pypi ''requests'') ''dial tcp: lookup failed: no such host'']\<rparr>)
   \<and> ComposerLookup_isAvailableInPublic unreachable (NewComposerLookup False) ''requests'' 0 blank
       = (False, \<lparr>files = Map.empty, trace = [Get (packagist ''requests''),
            requestError (packagist ''requests'') ''dial tcp: lookup failed: no such host'']\<rparr>)
   \<and> MVNLookup_isAvailableInPublic unreachable never (NewMVNLookup False) billing 0 blank
       = (False, \<lparr>files = Map.empty, trace = [Get (mavenRepo billing),
            requestError (mavenRepo billing) ''dial tcp: lookup failed: no such host'']\<rparr>)"
  using transport_error_is_unavailable_without_retry
    [of unreachable "''requests''" blank "''dial tcp: lookup failed: no such host''"
        "NewPythonLookup False" 0 "NewComposerLookup False" billing never "NewMVNLookup False"]
  by (simp add: unreachable_def blank_def billing_def pip_asked_def composer_asked_def mvn_asked_def
        emit_def emit_if_def NewPythonLookup_def NewComposerLookup_def NewMVNLookup_def)

subsection \<open>The depth of the web scan\<close>

lemma deepScan_maxDepth: "deepScan P u langs a w = deepScan P u langs b w"
  by (simp add: deepScan_def)

lemma ScanTarget_maxDepth: "ScanTarget P target langs dp a w = ScanTarget P target langs dp b w"
  unfolding ScanTarget_def deepScan_maxDepth[of P _ langs a _ b] by (rule refl)

text \<open>
  The requests of the scanner when no server has a file to give, that is when no answer
  is a response with status 200: every path handed to \<^verbatim>\<open>scanDependencyFile\<close> costs one
  request, unless \<^verbatim>\<open>http.NewRequest\<close> refuses its URL, and gives no result.
\<close>

lemma probe_without_file:
  assumes "\<forall>url k status content. web P url k \<noteq> Response status 200 content"
  shows "\<exists>err. fst (Scanner_scanDependencyFile P u path langs w) = Inl err"
    and "urls (trace (snd (Scanner_scanDependencyFile P u path langs w))) = urls (trace w) @
           filter (\<lambda>url. NewRequest P url = None) [String P (u\<lparr>URL.Path := Join P (URL.Path u) path\<rparr>)]"
  using assms
  by (auto simp: Scanner_scanDependencyFile_def Let_def http_Get_def effects
        split: option.splits http_result.splits)

lemma scanDirectoryLoop_without_file:
  assumes "\<forall>url k status content. web P url k \<noteq> Response status 200 content"
  shows "fst (scanDirectoryLoop P u dir langs results filePaths w) = results
     \<and> urls (trace (snd (scanDirectoryLoop P u dir langs results filePaths w))) = urls (trace w) @
         filter (\<lambda>url. NewRequest P url = None)
           (map (\<lambda>file. String P (u\<lparr>URL.Path := Join P (URL.Path u) (Join P dir file)\<rparr>)) filePaths)"
proof (induction filePaths arbitrary: w)
  case Nil
  show ?case by simp
next
  case (Cons filePath filePaths)
  obtain r w1 where step: "Scanner_scanDependencyFile P u (Join P dir filePath) langs w = (r, w1)"
    by (cases "Scanner_scanDependencyFile P u (Join P dir filePath) langs w")
  obtain err where r: "r = Inl err"
    using probe_without_file(1)[OF assms, of u "Join P dir filePath" langs w] step by auto
  have w1: "urls (trace w1) = urls (trace w) @
      filter (\<lambda>url. NewRequest P url = None)
        [String P (u\<lparr>URL.Path := Join P (URL.Path u) (Join P dir filePath)\<rparr>)]"
    using probe_without_file(2)[OF assms, of u "Join P dir filePath" langs w] step by simp
  show ?case
    using Cons.IH[of w1] by (simp add: step r w1)
qed

lemma deepScanLoop_without_file:
  assumes "\<forall>url k status content. web P url k \<noteq> Response status 200 content"
  shows "fst (deepScanLoop P u langs results dirs w) = results
     \<and> urls (trace (snd (deepScanLoop P u langs results dirs w))) = urls (trace w) @
         filter (\<lambda>url. NewRequest P url = None)
           (concat (map (\<lambda>dir. map (\<lambda>file. String P (u\<lparr>URL.Path := Join P (URL.Path u) (Join P dir file)\<rparr>))
                                  (getDependencyFilePaths langs)) dirs))"
proof (induction dirs arbitrary: w)
  case Nil
  show ?case by simp
next
  case (Cons dir dirs)
  obtain rs w1 where loop:
    "scanDirectoryLoop P u dir langs [] (getDependencyFilePaths langs) w = (rs, w1)"
    by (cases "scanDirectoryLoop P u dir langs [] (getDependencyFilePaths langs) w")
  have rs: "rs = []"
    and w1: "urls (trace w1) = urls (trace w) @
      filter (\<lambda>url. NewRequest P url = None)
        (map (\<lambda>file. String P (u\<lparr>URL.Path := Join P (URL.Path u) (Join P dir file)\<rparr>))
           (getDependencyFilePaths langs))"
    using scanDirectoryLoop_without_file[OF assms, of u dir langs "[]" "getDependencyFilePaths langs" w] loop
    by simp_all
  show ?case
    using Cons.IH[of w1] by (simp add: scanDirectory_def loop rs w1)
qed

text \<open>
  C9. The maximum depth given to the web scanner has no effect: the scan of a target
  and the deep scan return the same results and leave the same world for any two values
  of it. The deep scan probes the eleven directories of its static list, one level deep,
  whatever the depth: when no server has a file to give, it returns no result and its
  requests are those for the dependency files of the languages in each of the eleven
  directories, in that order.
\<close>

theorem maxDepth_has_no_effect:
  "ScanTarget P target langs dp d1 w = ScanTarget P target langs dp d2 w
   \<and> deepScan P u langs d1 w = deepScan P u langs d2 w
   \<and> ((\<forall>url k status content. web P url k \<noteq> Response status 200 content) \<longrightarrow>
        fst (deepScan P u langs d1 w) = Inr []
        \<and> urls (trace (snd (deepScan P u langs d1 w))) = urls (trace w) @
            filter (\<lambda>url. NewRequest P url = None)
              (concat (map (\<lambda>dir. map (\<lambda>file. String P (u\<lparr>URL.Path := Join P (URL.Path u) (Join P dir file)\<rparr>))
                                     (getDependencyFilePaths langs))
                 [''src/'', ''lib/'', ''app/'', ''web/'', ''public/'', ''static/'',
                  ''api/'', ''backend/'', ''frontend/'', ''client/'', ''server/''])))"
proof (intro conjI impI)
  show "ScanTarget P target langs dp d1 w = ScanTarget P target langs dp d2 w"
    by (rule ScanTarget_maxDepth)
  show "deepScan P u langs d1 w = deepScan P u langs d2 w"
    by (rule deepScan_maxDepth)
next
  let ?dirs = "[''src/'', ''lib/'', ''app/'', ''web/'', ''public/'', ''static/'',
                ''api/'', ''backend/'', ''frontend/'', ''client/'', ''server/'']"
  assume nofile: "\<forall>url k status content. web P url k \<noteq> Response status 200 content"
  obtain rs w1 where loop: "deepScanLoop P u langs [] ?dirs w = (rs, w1)"
    by (cases "deepScanLoop P u langs [] ?dirs w")
  have deep: "deepScan P u langs d1 w = (Inr rs, w1)"
    unfolding deepScan_def Let_def loop by simp
  note l = deepScanLoop_without_file[OF nofile, of u langs "[]" ?dirs w, unfolded loop]
  show "fst (deepScan P u langs d1 w) = Inr []"
    unfolding deep using l by simp
  show "urls (trace (snd (deepScan P u langs d1 w))) = urls (trace w) @
            filter (\<lambda>url. NewRequest P url = None)
              (concat (map (\<lambda>dir. map (\<lambda>file. String P (u\<lparr>URL.Path := Join P (URL.Path u) (Join P dir file)\<rparr>))
                                     (getDependencyFilePaths langs)) ?dirs))"
    unfolding deep using l by simp
qed

theorem maxDepth_has_no_effect_witness:
  "(\<forall>url k status content. web (pipPlatform always404 noApi) url k \<noteq> Response status 200 content)
   \<and> ScanTarget (pipPlatform pypiC noApi) ''example.com'' [''pip''] True 3 blank
       = ScanTarget (pipPlatform pypiC noApi) ''example.com'' [''pip''] True 0 blank
   \<and> map_sum id (map summary)
        (fst (ScanTarget (pipPlatform pypiC noApi) ''example.com'' [''pip''] True 0 blank))
       = Inr [(''example.com:requirements.txt'', [''internal-billing''], [], 1)]
   \<and> urls (trace (snd (ScanTarget (pipPlatform pypiC noApi) ''example.com'' [''pip''] True 0 blank)))
       = [''https://example.com/requirements.txt'', pypi ''internal-billing'',
          ''https://example.com/requirements-dev.txt'', ''https://example.com/setup.py'',
          ''https://example.com/pyproject.toml'']
         @ concat (map (\<lambda>dir. map (\<lambda>file. ''https://example.com/'' @ dir @ file)
                      [''requirements.txt'', ''requirements-dev.txt'', ''setup.py'', ''pyproject.toml''])
             [''src/'', ''lib/'', ''app/'', ''web/'', ''public/'', ''static/'',
              ''api/'', ''backend/'', ''frontend/'', ''client/'', ''server/''])
   \<and> fst (deepScan (pipPlatform always404 noApi) \<lparr>Scheme = ''https'', Host = ''example.com'', Path = []\<rparr>
          [''pip''] 3 blank) = Inr []
   \<and> urls (trace (snd (deepScan (pipPlatform always404 noApi)
          \<lparr>Scheme = ''https'', Host = ''example.com'', Path = []\<rparr> [''pip''] 3 blank)))
       = concat (map (\<lambda>dir. map (\<lambda>file. ''https://example.com/'' @ dir @ file)
                      [''requirements.txt'', ''requirements-dev.txt'', ''setup.py'', ''pyproject.toml''])
             [''src/'', ''lib/'', ''app/'', ''web/'', ''public/'', ''static/'',
              ''api/'', ''backend/'', ''frontend/'', ''client/'', ''server/''])"
proof -
  let ?P = "pipPlatform always404 noApi" and ?Q = "pipPlatform pypiC noApi"
  let ?u = "\<lparr>Scheme = ''https'', Host = ''example.com'', Path = []\<rparr>"
  have nofile: "\<forall>url k status content. web ?P url k \<noteq> Response status 200 content"
    by (simp add: pipPlatform_def always404_def)
  note t = maxDepth_has_no_effect[of ?Q "''example.com''" "[''pip'']" True 3 blank 0]
  note d = maxDepth_has_no_effect[of ?P _ "[''pip'']" _ 3 blank 3 ?u,
      THEN conjunct2, THEN conjunct2, THEN mp, OF nofile]
  have same: "ScanTarget ?Q ''example.com'' [''pip''] True 3 blank
       = ScanTarget ?Q ''example.com'' [''pip''] True 0 blank"
    using t[THEN conjunct1] .
  have run: "map_sum id (map summary) (fst (ScanTarget ?Q ''example.com'' [''pip''] True 0 blank))
       = Inr [(''example.com:requirements.txt'', [''internal-billing''], [], 1)]
   \<and> urls (trace (snd (ScanTarget ?Q ''example.com'' [''pip''] True 0 blank)))
       = [''https://example.com/requirements.txt'', pypi ''internal-billing'',
          ''https://example.com/requirements-dev.txt'', ''https://example.com/setup.py'',
          ''https://example.com/pyproject.toml'']
         @ concat (map (\<lambda>dir. map (\<lambda>file. ''https://example.com/'' @ dir @ file)
                      [''requirements.txt'', ''requirements-dev.txt'', ''setup.py'', ''pyproject.toml''])
             [''src/'', ''lib/'', ''app/'', ''web/'', ''public/'', ''static/'',
              ''api/'', ''backend/'', ''frontend/'', ''client/'', ''server/''])"
    by (simp add: run_defs pypiC_def)
  have deep: "fst (deepScan ?P ?u [''pip''] 3 blank) = Inr []
   \<and> urls (trace (snd (deepScan ?P ?u [''pip''] 3 blank)))
       = concat (map (\<lambda>dir. map (\<lambda>file. ''https://example.com/'' @ dir @ file)
                      [''requirements.txt'', ''requirements-dev.txt'', ''setup.py'', ''pyproject.toml''])
             [''src/'', ''lib/'', ''app/'', ''web/'', ''public/'', ''static/'',
              ''api/'', ''backend/'', ''frontend/'', ''client/'', ''server/''])"
    using d by (simp add: pipPlatform_def getDependencyFilePaths_def urlString_def joinPath_def
                  isSlash_def blank_def Let_def)
  show ?thesis
    using nofile same run deep by (intro conjI) simp_all
qed

text \<open>
  The web command logs the maximum depth before it scans, which is the one place where
  the value shows. At the target of the example the results of the command are the same
  for every depth.
\<close>

lemma web_command_logs_max_depth:
  "map summary (fst (runWebCommand (pipPlatform pypiC noApi) (webFlagsS\<lparr>flag_max_depth := d\<rparr>)
        [''example.com''] blank))
     = [(''example.com:requirements.txt'', [''internal-billing''], [], 1)]
   \<and> Log INFO (''Max depth: '' @ Itoa d)
        \<in> set (trace (snd (runWebCommand (pipPlatform pypiC noApi) (webFlagsS\<lparr>flag_max_depth := d\<rparr>)
        [''example.com''] blank)))"
  by (simp add: run_defs pypiC_def webFlagsS_def del: Itoa_def)

subsection \<open>The maven check of a package without a group\<close>

text \<open>
  C10. A maven package whose group is the empty string is available without a request:
  the check returns true and leaves the world as it was, so the resolver's list of
  packages not in public is the one computed from the packages with a group, and only
  their identifiers can be in it.
\<close>

theorem mvn_empty_group_is_available:
  "(Group pkg = [] \<longrightarrow> MVNLookup_isAvailableInPublic net unpublished n pkg 0 w = (True, w))
   \<and> MVNLookup_PackagesNotInPublic net unpublished n w =
       MVNLookup_notavailLoop net unpublished n [] (filter (\<lambda>p. Group p \<noteq> []) (MVNLookup.Packages n)) w
   \<and> set (fst (MVNLookup_PackagesNotInPublic net unpublished n w))
       \<subseteq> (\<lambda>p. Group p @ ''/'' @ Artifact p) ` {p \<in> set (MVNLookup.Packages n). Group p \<noteq> []}"
proof (intro conjI impI)
  assume "Group pkg = []"
  then show "MVNLookup_isAvailableInPublic net unpublished n pkg 0 w = (True, w)"
    by (simp add: mvn_no_group)
next
  show "MVNLookup_PackagesNotInPublic net unpublished n w =
       MVNLookup_notavailLoop net unpublished n [] (filter (\<lambda>p. Group p \<noteq> []) (MVNLookup.Packages n)) w"
    unfolding MVNLookup_PackagesNotInPublic_def by (rule mvn_loop_skips)
next
  show "set (fst (MVNLookup_PackagesNotInPublic net unpublished n w))
       \<subseteq> (\<lambda>p. Group p @ ''/'' @ Artifact p) ` {p \<in> set (MVNLookup.Packages n). Group p \<noteq> []}"
    unfolding MVNLookup_PackagesNotInPublic_def
    using mvn_loop_names[of net unpublished n "[]" "MVNLookup.Packages n" w] by simp
qed

theorem mvn_empty_group_is_available_witness:
  "Group orphan = []
   \<and> MVNLookup_isAvailableInPublic always404 never ((NewMVNLookup False)\<lparr>MVNLookup.Packages := [orphan]\<rparr>) orphan 0 blank
       = (True, blank)
   \<and> MVNLookup_PackagesNotInPublic always404 never ((NewMVNLookup False)\<lparr>MVNLookup.Packages := [orphan]\<rparr>) blank
       = ([], blank)"
  using mvn_empty_group_is_available
    [of orphan always404 never "(NewMVNLookup False)\<lparr>MVNLookup.Packages := [orphan]\<rparr>" blank]
  by (simp add: orphan_def NewMVNLookup_def mvn_no_group)

end
